theory Spec2Isabelle
  imports Complex_Main
begin

section \<open>Time and the command channel\<close>

text \<open>
  The Python code reads the wall clock with \<open>datetime.now()\<close> and compares differences of
  such readings with \<open>timedelta\<close> values. Both have a resolution of one microsecond and
  are exact, so a reading is modelled as an integer number of microseconds and a duration
  likewise. Every clock reading a function takes is an explicit argument.
\<close>

type_synonym datetime = int
type_synonym timedelta = int

definition seconds :: "int \<Rightarrow> timedelta" where
  "seconds n = n * 1000000"

text \<open>
  \<open>WindowController._execute_window_command\<close> starts \<open>cat_window.py\<close> as a subprocess
  with one of five commands and returns whether it exited with status zero. The outcome
  belongs to the environment: it is an argument \<open>wire\<close> that tells, for each command, whether
  it succeeds. Each function of the controller returns, beside its result, the list of
  commands it has run, in order.
\<close>

datatype wire_cmd = Apri | Chiudi | Blocca | Sblocca | Finestra real

type_synonym wire = "wire_cmd \<Rightarrow> bool"

definition wire_ok :: wire where
  "wire_ok c = True"

definition wire_fail :: wire where
  "wire_fail c = False"

section \<open>The window controller (window\_controller.py)\<close>

record WindowController =
  current_angle :: real
  target_angle :: real
  current_lock_angle :: real
  target_lock_angle :: real
  last_command_time :: "datetime option"
  manual_mode :: bool
  is_window_open :: bool
  is_window_locked :: bool

definition CLOSED_ANGLE :: real where "CLOSED_ANGLE = 77"
definition OPEN_ANGLE :: real where "OPEN_ANGLE = 120"
definition LOCK_CLOSED :: real where "LOCK_CLOSED = 0"
definition LOCK_OPEN :: real where "LOCK_OPEN = 90"

definition command_cooldown :: timedelta where
  "command_cooldown = seconds 5"

text \<open>The state built by \<open>WindowController.__init__\<close>.\<close>

definition WindowController_init :: WindowController where
  "WindowController_init =
     \<lparr> current_angle = CLOSED_ANGLE, target_angle = CLOSED_ANGLE,
       current_lock_angle = LOCK_CLOSED, target_lock_angle = LOCK_CLOSED,
       last_command_time = None, manual_mode = False,
       is_window_open = False, is_window_locked = True \<rparr>"

text \<open>
  The guard that opens all three commands:
  \<open>last_command_time is not None and current_time - last_command_time < command_cooldown\<close>.
\<close>

definition cooldown_active :: "WindowController \<Rightarrow> datetime \<Rightarrow> bool" where
  "cooldown_active w current_time =
     (case last_command_time w of
        None \<Rightarrow> False
      | Some t \<Rightarrow> current_time - t < command_cooldown)"

definition set_window_position ::
  "WindowController \<Rightarrow> bool \<Rightarrow> bool \<Rightarrow> datetime \<Rightarrow> wire
     \<Rightarrow> WindowController \<times> bool \<times> wire_cmd list" where
  "set_window_position w should_be_open manual current_time wire =
     (if cooldown_active w current_time then (w, False, [])
      else
        let w1 = (if manual then w\<lparr>manual_mode := True\<rparr> else w) in
        if should_be_open = is_window_open w1 \<and> \<not> manual then (w1, False, [])
        else if should_be_open then
          (if wire Apri then
             (w1\<lparr>current_angle := OPEN_ANGLE, target_angle := OPEN_ANGLE,
                 current_lock_angle := LOCK_OPEN, target_lock_angle := LOCK_OPEN,
                 is_window_open := True, is_window_locked := False,
                 last_command_time := Some current_time\<rparr>, True, [Apri])
           else (w1, False, [Apri]))
        else
          (if wire Chiudi then
             (w1\<lparr>current_angle := CLOSED_ANGLE, target_angle := CLOSED_ANGLE,
                 current_lock_angle := LOCK_CLOSED, target_lock_angle := LOCK_CLOSED,
                 is_window_open := False, is_window_locked := True,
                 last_command_time := Some current_time\<rparr>, True, [Chiudi])
           else (w1, False, [Chiudi])))"

definition set_lock_position ::
  "WindowController \<Rightarrow> bool \<Rightarrow> bool \<Rightarrow> datetime \<Rightarrow> wire
     \<Rightarrow> WindowController \<times> bool \<times> wire_cmd list" where
  "set_lock_position w should_be_locked manual current_time wire =
     (if cooldown_active w current_time then (w, False, [])
      else
        let w1 = (if manual then w\<lparr>manual_mode := True\<rparr> else w) in
        if should_be_locked = is_window_locked w1 \<and> \<not> manual then (w1, False, [])
        else if should_be_locked then
          (if wire Blocca then
             (w1\<lparr>current_lock_angle := LOCK_CLOSED, target_lock_angle := LOCK_CLOSED,
                 is_window_locked := True,
                 last_command_time := Some current_time\<rparr>, True, [Blocca])
           else (w1, False, [Blocca]))
        else
          (if wire Sblocca then
             (w1\<lparr>current_lock_angle := LOCK_OPEN, target_lock_angle := LOCK_OPEN,
                 is_window_locked := False,
                 last_command_time := Some current_time\<rparr>, True, [Sblocca])
           else (w1, False, [Sblocca])))"

text \<open>
  \<open>set_window_angle\<close> reads the clock once itself (\<open>current_time\<close>); when the window is
  locked it calls \<open>set_lock_position(False, manual)\<close>, which reads the clock again
  (\<open>lock_time\<close>) and runs its own cooldown check. After a successful move the stamp
  written is the outer reading.
\<close>

definition set_window_angle ::
  "WindowController \<Rightarrow> real \<Rightarrow> bool \<Rightarrow> datetime \<Rightarrow> datetime \<Rightarrow> wire
     \<Rightarrow> WindowController \<times> bool \<times> wire_cmd list" where
  "set_window_angle w angle manual current_time lock_time wire =
     (if cooldown_active w current_time then (w, False, [])
      else
        let w1 = (if manual then w\<lparr>manual_mode := True\<rparr> else w) in
        if \<not> (CLOSED_ANGLE \<le> angle \<and> angle \<le> OPEN_ANGLE) then (w1, False, [])
        else
          let (w2, unlocked, tr) =
                (if is_window_locked w1
                 then set_lock_position w1 False manual lock_time wire
                 else (w1, True, []))
          in
          if \<not> unlocked then (w2, False, tr)
          else if wire (Finestra angle) then
            (w2\<lparr>current_angle := angle, target_angle := angle,
                is_window_open := (angle > CLOSED_ANGLE + 5),
                last_command_time := Some current_time\<rparr>, True, tr @ [Finestra angle])
          else (w2, False, tr @ [Finestra angle]))"

definition auto_control_enabled :: "WindowController \<Rightarrow> bool" where
  "auto_control_enabled w = (\<not> manual_mode w)"

definition disable_auto_control :: "WindowController \<Rightarrow> WindowController" where
  "disable_auto_control w = w\<lparr>manual_mode := True\<rparr>"

definition enable_auto_control :: "WindowController \<Rightarrow> WindowController" where
  "enable_auto_control w = w\<lparr>manual_mode := False\<rparr>"

section \<open>The detector of the full application (cat\_detector.py)\<close>

text \<open>
  Confidences, boundaries and box coordinates are Python floats; they are modelled as real
  numbers. A detection carries what the frame callback reads from it: \<open>get_label()\<close>,
  \<open>get_confidence()\<close> and the \<open>xmin\<close> and \<open>xmax\<close> of \<open>get_bbox()\<close>.
\<close>

datatype py_error = TypeError | ZeroDivisionError

record Detection =
  get_label :: string
  get_confidence :: real
  bbox_xmin :: real
  bbox_xmax :: real

text \<open>
  The fields of \<open>CatDetectorApp\<close> that detection and window control use. The durations and
  thresholds come from \<open>DETECTION_CONFIG\<close>; the controller is the object shared with the
  Telegram handler.
\<close>

record CatDetectorApp =
  current_detection_time :: "datetime option"
  current_no_detection_time :: "datetime option"
  recent_detections :: "datetime list"
  detection_filter_window :: timedelta
  required_detection_time :: timedelta
  required_no_detection_time :: timedelta
  min_confidence :: real
  left_boundary :: real
  right_boundary :: real
  error_count :: nat
  last_error_time :: "datetime option"
  window_controller :: WindowController

text \<open>The state after \<open>__init__\<close> when \<open>DETECTION_CONFIG\<close> sets none of the keys.\<close>

definition CatDetectorApp_init :: CatDetectorApp where
  "CatDetectorApp_init =
     \<lparr> current_detection_time = None, current_no_detection_time = None,
       recent_detections = [],
       detection_filter_window = seconds 3,
       required_detection_time = seconds 10,
       required_no_detection_time = seconds 3,
       min_confidence = 0.7, left_boundary = 0.4, right_boundary = 0.6,
       error_count = 0, last_error_time = None,
       window_controller = WindowController_init \<rparr>"

definition get_current_confidence_threshold :: "CatDetectorApp \<Rightarrow> real" where
  "get_current_confidence_threshold app =
     (if is_window_open (window_controller app) then min_confidence app * 0.8
      else min_confidence app)"

text \<open>
  \<open>is_within_roi\<close> divides the position by the frame width taken from the pad's caps,
  which is an integer or \<open>None\<close>: dividing by \<open>None\<close> raises \<open>TypeError\<close> and dividing by
  zero raises \<open>ZeroDivisionError\<close>.
\<close>

definition is_within_roi :: "CatDetectorApp \<Rightarrow> real \<Rightarrow> int option \<Rightarrow> py_error + bool" where
  "is_within_roi app x_pos width =
     (case width of
        None \<Rightarrow> Inl TypeError
      | Some wd \<Rightarrow>
          if wd = 0 then Inl ZeroDivisionError
          else
            let normalized_x = x_pos / real_of_int wd in
            Inr (left_boundary app \<le> normalized_x \<and> normalized_x \<le> right_boundary app))"

text \<open>
  The loop of \<open>process_frame\<close> over the detections of a frame. Its variables are
  \<open>cat_detected_in_roi\<close>, \<open>any_cat_detected\<close>, \<open>max_confidence\<close> and
  \<open>max_confidence_any\<close>, in this order.
\<close>

fun scan_detections ::
  "CatDetectorApp \<Rightarrow> real \<Rightarrow> int option \<Rightarrow> Detection list
     \<Rightarrow> bool \<times> bool \<times> real \<times> real \<Rightarrow> py_error + (bool \<times> bool \<times> real \<times> real)" where
  "scan_detections app current_threshold width [] acc = Inr acc"
| "scan_detections app current_threshold width (detection # rest)
       (cat_detected_in_roi, any_cat_detected, max_confidence, max_confidence_any) =
     (if get_label detection = ''cat'' then
        (let confidence = get_confidence detection in
         if confidence \<ge> current_threshold then
           (let center_x = (bbox_xmin detection + bbox_xmax detection) / 2 in
            case is_within_roi app center_x width of
              Inl e \<Rightarrow> Inl e
            | Inr inside \<Rightarrow>
                if inside then
                  scan_detections app current_threshold width rest
                    (True, True, max max_confidence confidence,
                     max max_confidence_any confidence)
                else
                  scan_detections app current_threshold width rest
                    (cat_detected_in_roi, True, max_confidence,
                     max max_confidence_any confidence))
         else
           scan_detections app current_threshold width rest
             (cat_detected_in_roi, any_cat_detected, max_confidence, max_confidence_any))
      else
        scan_detections app current_threshold width rest
          (cat_detected_in_roi, any_cat_detected, max_confidence, max_confidence_any))"

text \<open>
  \<open>update_detection_filter\<close> prunes the presence window, appends the current time when the
  frame qualified, and returns whether the window is non-empty. The call that counts the
  detection for the statistics is left out.
\<close>

definition update_detection_filter ::
  "CatDetectorApp \<Rightarrow> bool \<Rightarrow> datetime \<Rightarrow> CatDetectorApp \<times> bool" where
  "update_detection_filter app cat_detected current_time =
     (let app1 = app\<lparr>recent_detections :=
                        filter (\<lambda>t. current_time - t < detection_filter_window app)
                          (recent_detections app)\<rparr>;
          app2 = (if cat_detected
                  then app1\<lparr>recent_detections := recent_detections app1 @ [current_time]\<rparr>
                  else app1)
      in (app2, length (recent_detections app2) > 0))"

text \<open>
  \<open>process_cat_detection\<close> returns the new state, the wire commands that ran, and the call
  it made to \<open>set_window_position\<close>, if any, as the pair of the requested position and the
  value returned. \<open>ctl_time\<close> is the clock reading taken inside \<open>set_window_position\<close>. The
  frame and the confidence only reach log and notification texts and are left out.
\<close>

definition process_cat_detection ::
  "CatDetectorApp \<Rightarrow> bool \<Rightarrow> datetime \<Rightarrow> datetime \<Rightarrow> wire
     \<Rightarrow> CatDetectorApp \<times> wire_cmd list \<times> (bool \<times> bool) option" where
  "process_cat_detection app filtered_cat_present current_time ctl_time wire =
     (if \<not> auto_control_enabled (window_controller app) then (app, [], None)
      else if filtered_cat_present then
        (let since = (case current_detection_time app of
                        None \<Rightarrow> current_time
                      | Some t \<Rightarrow> t);
             app1 = app\<lparr>current_detection_time := Some since,
                        current_no_detection_time := None\<rparr>;
             cat_present_time = current_time - since
         in if cat_present_time \<ge> required_detection_time app1 then
              (let (w, r, tr) =
                     set_window_position (window_controller app1) True False ctl_time wire
               in (app1\<lparr>window_controller := w\<rparr>, tr, Some (True, r)))
            else (app1, [], None))
      else
        (let since = (case current_no_detection_time app of
                        None \<Rightarrow> current_time
                      | Some t \<Rightarrow> t);
             app1 = app\<lparr>current_no_detection_time := Some since,
                        current_detection_time := None\<rparr>;
             cat_absent_time = current_time - since
         in if cat_absent_time \<ge> required_no_detection_time app1 then
              (let (w, r, tr) =
                     set_window_position (window_controller app1) False False ctl_time wire
               in (app1\<lparr>window_controller := w\<rparr>, tr, Some (False, r)))
            else (app1, [], None)))"

text \<open>
  \<open>process_frame\<close>: a missing buffer ends the callback at once; an exception raised while
  the detections are scanned is caught, counted and ends the frame before the filter and
  the timers are touched. Saving images happens afterwards and is left out.
\<close>

definition process_frame ::
  "CatDetectorApp \<Rightarrow> (int option \<times> Detection list) option \<Rightarrow> datetime \<Rightarrow> datetime \<Rightarrow> wire
     \<Rightarrow> CatDetectorApp \<times> wire_cmd list \<times> (bool \<times> bool) option" where
  "process_frame app buffer current_time ctl_time wire =
     (case buffer of
        None \<Rightarrow> (app, [], None)
      | Some (width, detections) \<Rightarrow>
          (let current_threshold = get_current_confidence_threshold app in
           case scan_detections app current_threshold width detections
                  (False, False, 0, 0) of
             Inl e \<Rightarrow>
               (app\<lparr>error_count := error_count app + 1,
                    last_error_time := Some current_time\<rparr>, [], None)
           | Inr (cat_detected_in_roi, any_cat_detected, max_confidence, max_confidence_any) \<Rightarrow>
               (let (app1, filtered_cat_present) =
                      update_detection_filter app cat_detected_in_roi current_time
                in process_cat_detection app1 filtered_cat_present current_time
                     ctl_time wire)))"

section \<open>The headless detector (cat\_detector\_callback.py, headless\_detection.py)\<close>

record HeadlessCatDetectorCallback =
  cb_window_controller :: WindowController
  min_confidence_closed :: real
  min_confidence_open :: real
  last_cat_time :: "datetime option"
  last_no_cat_time :: "datetime option"
  cb_required_detection_time :: timedelta
  cb_required_no_detection_time :: timedelta
  cb_detection_filter_window :: timedelta
  cb_recent_detections :: "datetime list"

definition HeadlessCatDetectorCallback_init :: HeadlessCatDetectorCallback where
  "HeadlessCatDetectorCallback_init =
     \<lparr> cb_window_controller = WindowController_init,
       min_confidence_closed = 0.7, min_confidence_open = 0.5,
       last_cat_time = None, last_no_cat_time = None,
       cb_required_detection_time = seconds 10,
       cb_required_no_detection_time = seconds 3,
       cb_detection_filter_window = seconds 5,
       cb_recent_detections = [] \<rparr>"

definition cb_get_current_confidence_threshold :: "HeadlessCatDetectorCallback \<Rightarrow> real" where
  "cb_get_current_confidence_threshold cb =
     (if is_window_open (cb_window_controller cb) then min_confidence_open cb
      else min_confidence_closed cb)"

definition cb_update_detection_filter ::
  "HeadlessCatDetectorCallback \<Rightarrow> bool \<Rightarrow> datetime \<Rightarrow> HeadlessCatDetectorCallback \<times> bool" where
  "cb_update_detection_filter cb cat_detected current_time =
     (let cb1 = cb\<lparr>cb_recent_detections :=
                      filter (\<lambda>t. current_time - t < cb_detection_filter_window cb)
                        (cb_recent_detections cb)\<rparr>;
          cb2 = (if cat_detected
                 then cb1\<lparr>cb_recent_detections := cb_recent_detections cb1 @ [current_time]\<rparr>
                 else cb1)
      in (cb2, length (cb_recent_detections cb2) > 0))"

definition cb_process_cat_detection ::
  "HeadlessCatDetectorCallback \<Rightarrow> bool \<Rightarrow> datetime \<Rightarrow> datetime \<Rightarrow> wire
     \<Rightarrow> HeadlessCatDetectorCallback \<times> wire_cmd list \<times> (bool \<times> bool) option" where
  "cb_process_cat_detection cb filtered_cat_present current_time ctl_time wire =
     (if \<not> auto_control_enabled (cb_window_controller cb) then (cb, [], None)
      else if filtered_cat_present then
        (let since = (case last_cat_time cb of
                        None \<Rightarrow> current_time
                      | Some t \<Rightarrow> t);
             cb1 = cb\<lparr>last_cat_time := Some since, last_no_cat_time := None\<rparr>;
             cat_present_time = current_time - since
         in if cat_present_time \<ge> cb_required_detection_time cb1 then
              (let (w, r, tr) =
                     set_window_position (cb_window_controller cb1) True False ctl_time wire
               in (cb1\<lparr>cb_window_controller := w\<rparr>, tr, Some (True, r)))
            else (cb1, [], None))
      else
        (let since = (case last_no_cat_time cb of
                        None \<Rightarrow> current_time
                      | Some t \<Rightarrow> t);
             cb1 = cb\<lparr>last_no_cat_time := Some since, last_cat_time := None\<rparr>;
             cat_absent_time = current_time - since
         in if cat_absent_time \<ge> cb_required_no_detection_time cb1 then
              (let (w, r, tr) =
                     set_window_position (cb_window_controller cb1) False False ctl_time wire
               in (cb1\<lparr>cb_window_controller := w\<rparr>, tr, Some (False, r)))
            else (cb1, [], None)))"

text \<open>
  The loop of \<open>app_callback\<close> in \<open>headless_detection.py\<close>, over \<open>cat_detected\<close> and
  \<open>max_confidence\<close>; it reads neither the box nor the frame width.
\<close>

fun cb_scan_detections :: "real \<Rightarrow> Detection list \<Rightarrow> bool \<times> real \<Rightarrow> bool \<times> real" where
  "cb_scan_detections current_threshold [] acc = acc"
| "cb_scan_detections current_threshold (detection # rest) (cat_detected, max_confidence) =
     (if get_label detection = ''cat'' then
        (let confidence = get_confidence detection in
         if confidence \<ge> current_threshold then
           cb_scan_detections current_threshold rest (True, max max_confidence confidence)
         else cb_scan_detections current_threshold rest (cat_detected, max_confidence))
      else cb_scan_detections current_threshold rest (cat_detected, max_confidence))"

definition app_callback ::
  "HeadlessCatDetectorCallback \<Rightarrow> Detection list option \<Rightarrow> datetime \<Rightarrow> datetime \<Rightarrow> wire
     \<Rightarrow> HeadlessCatDetectorCallback \<times> wire_cmd list \<times> (bool \<times> bool) option" where
  "app_callback user_data buffer current_time ctl_time wire =
     (case buffer of
        None \<Rightarrow> (user_data, [], None)
      | Some detections \<Rightarrow>
          (let current_threshold = cb_get_current_confidence_threshold user_data;
               (cat_detected, max_confidence) =
                  cb_scan_detections current_threshold detections (False, 0);
               (cb1, filtered_cat_present) =
                  cb_update_detection_filter user_data cat_detected current_time
           in cb_process_cat_detection cb1 filtered_cat_present current_time ctl_time wire))"

section \<open>Runs of the detectors\<close>

text \<open>
  What happens to a detector between start and stop, as a list of events: a call of
  \<open>process_cat_detection\<close> with its debounced presence, its timestamp, the clock reading
  of the controller and the behaviour of the wire; the Telegram commands that switch
  automatic control on and off; and a manual open or close from Telegram, which acts on
  the shared controller. A run returns the final state and, per event, the wire commands
  that ran and the call made to \<open>set_window_position\<close>.
\<close>

datatype event =
    Frame bool datetime datetime wire
  | EnableAuto
  | DisableAuto
  | ManualPosition bool datetime wire

type_synonym log_entry = "wire_cmd list \<times> (bool \<times> bool) option"

fun step_app :: "CatDetectorApp \<Rightarrow> event \<Rightarrow> CatDetectorApp \<times> log_entry" where
  "step_app app (Frame present current_time ctl_time wire) =
     process_cat_detection app present current_time ctl_time wire"
| "step_app app EnableAuto =
     (app\<lparr>window_controller := enable_auto_control (window_controller app)\<rparr>, [], None)"
| "step_app app DisableAuto =
     (app\<lparr>window_controller := disable_auto_control (window_controller app)\<rparr>, [], None)"
| "step_app app (ManualPosition should_be_open ctl_time wire) =
     (let (w, r, tr) = set_window_position (window_controller app) should_be_open True
                         ctl_time wire
      in (app\<lparr>window_controller := w\<rparr>, tr, Some (should_be_open, r)))"

fun run_app :: "CatDetectorApp \<Rightarrow> event list \<Rightarrow> CatDetectorApp \<times> log_entry list" where
  "run_app app [] = (app, [])"
| "run_app app (e # es) =
     (let (app1, entry) = step_app app e;
          (app2, entries) = run_app app1 es
      in (app2, entry # entries))"

fun step_cb :: "HeadlessCatDetectorCallback \<Rightarrow> event \<Rightarrow> HeadlessCatDetectorCallback \<times> log_entry" where
  "step_cb cb (Frame present current_time ctl_time wire) =
     cb_process_cat_detection cb present current_time ctl_time wire"
| "step_cb cb EnableAuto =
     (cb\<lparr>cb_window_controller := enable_auto_control (cb_window_controller cb)\<rparr>, [], None)"
| "step_cb cb DisableAuto =
     (cb\<lparr>cb_window_controller := disable_auto_control (cb_window_controller cb)\<rparr>, [], None)"
| "step_cb cb (ManualPosition should_be_open ctl_time wire) =
     (let (w, r, tr) = set_window_position (cb_window_controller cb) should_be_open True
                         ctl_time wire
      in (cb\<lparr>cb_window_controller := w\<rparr>, tr, Some (should_be_open, r)))"

fun run_cb ::
  "HeadlessCatDetectorCallback \<Rightarrow> event list \<Rightarrow> HeadlessCatDetectorCallback \<times> log_entry list" where
  "run_cb cb [] = (cb, [])"
| "run_cb cb (e # es) =
     (let (cb1, entry) = step_cb cb e;
          (cb2, entries) = run_cb cb1 es
      in (cb2, entry # entries))"



text \<open>
  The qualification rule in the words of the specification, for comparison with the two
  loops: the label is the target class, the confidence reaches the threshold, and the
  centre of the box, divided by the frame width, lies between the two boundaries.
\<close>

definition spec_qualifies :: "real \<Rightarrow> real \<Rightarrow> real \<Rightarrow> int \<Rightarrow> Detection \<Rightarrow> bool" where
  "spec_qualifies threshold left right width d =
     (get_label d = ''cat'' \<and> get_confidence d \<ge> threshold
      \<and> left \<le> ((bbox_xmin d + bbox_xmax d) / 2) / real_of_int width
      \<and> ((bbox_xmin d + bbox_xmax d) / 2) / real_of_int width \<le> right)"

text \<open>The rule the headless loop applies: class and confidence only.\<close>

definition cb_qualifies :: "real \<Rightarrow> Detection \<Rightarrow> bool" where
  "cb_qualifies threshold d = (get_label d = ''cat'' \<and> get_confidence d \<ge> threshold)"

text \<open>A short run with a presence, an absence and a spell of manual mode.\<close>

definition sample_events :: "event list" where
  "sample_events = [Frame True 0 0 wire_ok, Frame False (seconds 1) (seconds 1) wire_ok,
          DisableAuto, Frame True (seconds 2) (seconds 2) wire_ok, EnableAuto,
          Frame True (seconds 3) (seconds 3) wire_ok]"




text \<open>A confident detection of a cat near the right edge of the frame.\<close>

definition sample_detection :: Detection where
  "sample_detection = \<lparr> get_label = ''cat'', get_confidence = 0.9,
                         bbox_xmin = 0.8, bbox_xmax = 1 \<rparr>"

section \<open>Runs with continuous presence\<close>

text \<open>
  Vocabulary for runs in which presence stays true: an event that is a frame with debounced
  presence; whether the wire would carry out an open command at a frame; the start of the
  dwell as \<open>process_cat_detection\<close> computes it; whether an open command is due at a
  frame, that is, the dwell has lasted long enough and the controller is out of its
  cooldown; and a log entry whose call \<open>set_window_position(True)\<close> returned true.
\<close>

fun is_present_frame :: "event \<Rightarrow> bool" where
  "is_present_frame (Frame present current_time ctl_time wire) = present"
| "is_present_frame EnableAuto = False"
| "is_present_frame DisableAuto = False"
| "is_present_frame (ManualPosition should_be_open ctl_time wire) = False"

fun apri_succeeds :: "event \<Rightarrow> bool" where
  "apri_succeeds (Frame present current_time ctl_time wire) = wire Apri"
| "apri_succeeds EnableAuto = True"
| "apri_succeeds DisableAuto = True"
| "apri_succeeds (ManualPosition should_be_open ctl_time wire) = True"

definition dwell_since :: "CatDetectorApp \<Rightarrow> datetime \<Rightarrow> datetime" where
  "dwell_since app current_time =
     (case current_detection_time app of None \<Rightarrow> current_time | Some t \<Rightarrow> t)"

fun open_due :: "CatDetectorApp \<Rightarrow> datetime \<Rightarrow> event \<Rightarrow> bool" where
  "open_due app since (Frame present current_time ctl_time wire) =
     (current_time - since \<ge> required_detection_time app
      \<and> \<not> cooldown_active (window_controller app) ctl_time)"
| "open_due app since EnableAuto = False"
| "open_due app since DisableAuto = False"
| "open_due app since (ManualPosition should_be_open ctl_time wire) = False"

definition opened :: "log_entry \<Rightarrow> bool" where
  "opened entry = (snd entry = Some (True, True))"

text \<open>
  Two dwells of eleven seconds: one in which the wire works, and one in which the first
  open command fails on the wire and the next one succeeds.
\<close>

definition dwell_run :: "event list" where
  "dwell_run = [Frame True 0 0 wire_ok,
                Frame True (seconds 5) (seconds 5) wire_ok,
                Frame True (seconds 10) (seconds 10) wire_ok,
                Frame True (seconds 11) (seconds 11) wire_ok]"

definition retry_run :: "event list" where
  "retry_run = [Frame True 0 0 wire_ok,
                Frame True (seconds 10) (seconds 10) wire_fail,
                Frame True (seconds 11) (seconds 11) wire_ok]"

section \<open>The actuator script (cat\_window.py)\<close>

text \<open>
  \<open>cat_window.py\<close> talks to the actuator through a Modbus client and reads the clock with
  \<open>time.time()\<close>. Both belong to the environment. A client is modelled as the answers it
  will give, in order, to the calls of \<open>write_register\<close> and of \<open>read_holding_registers\<close>,
  the successive clock readings, and the trace of what has been done so far: register
  writes, register reads with their answers, and sleeps. A write answers with a result,
  with \<open>None\<close> or with an exception; a read answers with the value of \<open>registers[0]\<close>, with
  \<open>None\<close>, or with an exception (raised by the call or by the access to the registers).
  When an answer list is exhausted the execution is cut at that point and the function
  returns no result (\<open>None\<close>); the trace still records the call that got no answer.
\<close>

datatype write_resp = WriteOk | WriteNone | WriteExc

datatype read_resp = ReadOk int | ReadNone | ReadExc

datatype io_event = WriteRegister nat int | ReadRegisters nat read_resp | Sleep real
  | ReadUnanswered nat

record client =
  writes :: "write_resp list"
  reads :: "read_resp list"
  clock :: "real list"
  trace :: "io_event list"

definition write_register :: "client \<Rightarrow> nat \<Rightarrow> int \<Rightarrow> write_resp option \<times> client" where
  "write_register c address val =
     (case writes c of
        [] \<Rightarrow> (None, c\<lparr>trace := trace c @ [WriteRegister address val]\<rparr>)
      | r # rs \<Rightarrow> (Some r, c\<lparr>writes := rs, trace := trace c @ [WriteRegister address val]\<rparr>))"

definition read_holding_registers :: "client \<Rightarrow> nat \<Rightarrow> read_resp option \<times> client" where
  "read_holding_registers c address =
     (case reads c of
        [] \<Rightarrow> (None, c\<lparr>trace := trace c @ [ReadUnanswered address]\<rparr>)
      | r # rs \<Rightarrow> (Some r, c\<lparr>reads := rs, trace := trace c @ [ReadRegisters address r]\<rparr>))"

definition sleep :: "client \<Rightarrow> real \<Rightarrow> client" where
  "sleep c d = c\<lparr>trace := trace c @ [Sleep d]\<rparr>"

text \<open>Python's \<open>int(round(x))\<close>: rounding to the nearest integer, halves to the even one.\<close>

definition py_round :: "real \<Rightarrow> int" where
  "py_round x =
     (let f = \<lfloor>x\<rfloor>; d = x - of_int f in
      if d < 1 / 2 then f
      else if d > 1 / 2 then f + 1
      else if even f then f else f + 1)"

text \<open>
  The polling loop of \<open>set_window_angle\<close>. Each turn reads the clock once, so the loop is
  a recursion on the list of clock readings. The variable \<open>last_value\<close> only decides what
  is printed and is left out.
\<close>

function poll_window :: "real \<Rightarrow> real \<Rightarrow> client \<Rightarrow> bool option \<times> client" where
  "poll_window angle start_time c =
     (case clock c of
        [] \<Rightarrow> (None, c)
      | now # later \<Rightarrow>
          if now - start_time > 30 then (Some False, c\<lparr>clock := later\<rparr>)
          else
            (case read_holding_registers (c\<lparr>clock := later\<rparr>) 1 of
               (None, c1) \<Rightarrow> (None, c1)
             | (Some ReadNone, c1) \<Rightarrow> poll_window angle start_time (sleep c1 0.5)
             | (Some ReadExc, c1) \<Rightarrow> poll_window angle start_time (sleep c1 0.5)
             | (Some (ReadOk r), c1) \<Rightarrow>
                 if \<bar>real_of_int r / 10 - angle\<bar> \<le> 0.1 then (Some True, c1)
                 else poll_window angle start_time (sleep c1 0.1)))"
  by pat_completeness auto
termination
  by (relation "measure (\<lambda>(angle, start_time, c). length (clock c))")
     (auto simp add: read_holding_registers_def sleep_def split: list.splits)

text \<open>The functions of \<open>cat_window.py\<close>; the two setters carry the prefix \<open>cw\<close>.\<close>

definition cw_set_window_angle :: "client \<Rightarrow> real \<Rightarrow> bool option \<times> client" where
  "cw_set_window_angle c angle =
     (let angle_reg = py_round (angle * 10) in
      case write_register c 0 angle_reg of
        (None, c1) \<Rightarrow> (None, c1)
      | (Some WriteNone, c1) \<Rightarrow> (Some False, c1)
      | (Some WriteExc, c1) \<Rightarrow> (Some False, c1)
      | (Some WriteOk, c1) \<Rightarrow>
          (case clock c1 of
             [] \<Rightarrow> (None, c1)
           | start_time # later \<Rightarrow> poll_window angle start_time (c1\<lparr>clock := later\<rparr>)))"

definition cw_set_lock_angle :: "client \<Rightarrow> real \<Rightarrow> bool option \<times> client" where
  "cw_set_lock_angle c angle =
     (let angle_reg = py_round (angle * 10) in
      case write_register c 2 angle_reg of
        (None, c1) \<Rightarrow> (None, c1)
      | (Some WriteNone, c1) \<Rightarrow> (Some False, c1)
      | (Some WriteExc, c1) \<Rightarrow> (Some False, c1)
      | (Some WriteOk, c1) \<Rightarrow>
          (case read_holding_registers (sleep c1 1) 3 of
             (None, c2) \<Rightarrow> (None, c2)
           | (Some ReadNone, c2) \<Rightarrow> (Some False, c2)
           | (Some ReadExc, c2) \<Rightarrow> (Some False, c2)
           | (Some (ReadOk r), c2) \<Rightarrow>
               if \<bar>real_of_int r / 10 - angle\<bar> \<le> 5 then (Some True, c2)
               else (Some False, c2)))"

definition lock_window :: "client \<Rightarrow> bool option \<times> client" where
  "lock_window c = cw_set_lock_angle c 0"

definition unlock_window :: "client \<Rightarrow> bool option \<times> client" where
  "unlock_window c = cw_set_lock_angle c 90"

definition open_window :: "client \<Rightarrow> bool option \<times> client" where
  "open_window c =
     (case unlock_window c of
        (None, c1) \<Rightarrow> (None, c1)
      | (Some False, c1) \<Rightarrow> (Some False, c1)
      | (Some True, c1) \<Rightarrow>
          (case cw_set_window_angle c1 120 of
             (None, c2) \<Rightarrow> (None, c2)
           | (Some False, c2) \<Rightarrow> (Some False, c2)
           | (Some True, c2) \<Rightarrow> (Some True, c2)))"

definition close_window :: "client \<Rightarrow> bool option \<times> client" where
  "close_window c =
     (case cw_set_window_angle c 77 of
        (None, c1) \<Rightarrow> (None, c1)
      | (Some False, c1) \<Rightarrow> (Some False, c1)
      | (Some True, c1) \<Rightarrow>
          (case lock_window (sleep c1 1) of
             (None, c2) \<Rightarrow> (None, c2)
           | (Some False, c2) \<Rightarrow> (Some False, c2)
           | (Some True, c2) \<Rightarrow> (Some True, c2)))"

text \<open>
  The events a call has added to the trace, and the two kinds of register write: register 0
  is the setpoint of the window leaf, register 2 the setpoint of the lock.
\<close>

definition new_events :: "client \<Rightarrow> client \<Rightarrow> io_event list" where
  "new_events c c' = drop (length (trace c)) (trace c')"

fun is_window_write :: "io_event \<Rightarrow> bool" where
  "is_window_write (WriteRegister address val) = (address = 0)"
| "is_window_write (ReadRegisters address r) = False"
| "is_window_write (ReadUnanswered address) = False"
| "is_window_write (Sleep d) = False"

fun is_lock_write :: "io_event \<Rightarrow> bool" where
  "is_lock_write (WriteRegister address val) = (address = 2)"
| "is_lock_write (ReadRegisters address r) = False"
| "is_lock_write (ReadUnanswered address) = False"
| "is_lock_write (Sleep d) = False"

text \<open>
  Four devices: one that unlocks and opens at once, one whose lock stays at 0 degrees, one
  that closes and locks at once, and one whose leaf move runs into the timeout.
\<close>

definition obedient_open_client :: client where
  "obedient_open_client =
     \<lparr> writes = [WriteOk, WriteOk], reads = [ReadOk 900, ReadOk 1200],
       clock = [0, 0.1], trace = [] \<rparr>"

definition stuck_lock_client :: client where
  "stuck_lock_client =
     \<lparr> writes = [WriteOk, WriteOk], reads = [ReadOk 0, ReadOk 1200],
       clock = [0, 0.1], trace = [] \<rparr>"

definition obedient_close_client :: client where
  "obedient_close_client =
     \<lparr> writes = [WriteOk, WriteOk], reads = [ReadOk 770, ReadOk 0],
       clock = [0, 0.1], trace = [] \<rparr>"

definition stuck_leaf_client :: client where
  "stuck_leaf_client =
     \<lparr> writes = [WriteOk, WriteOk], reads = [ReadOk 900, ReadOk 0],
       clock = [0, 31], trace = [] \<rparr>"

section \<open>The cooldown\<close>

text \<open>
  C6. A command issued less than \<open>command_cooldown\<close> (five seconds) after the stamp in
  \<open>last_command_time\<close> is rejected by each of \<open>set_window_position\<close>,
  \<open>set_lock_position\<close> and \<open>set_window_angle\<close>: the call returns \<open>False\<close> as an
  ordinary value, runs no wire command and leaves the controller as it was.
\<close>

theorem cooldown_rejects_command:
  assumes "last_command_time w = Some t"
    and "current_time - t < command_cooldown"
  shows "set_window_position w should_be_open manual current_time wire = (w, False, [])
       \<and> set_lock_position w should_be_locked manual current_time wire = (w, False, [])
       \<and> set_window_angle w angle manual current_time lock_time wire = (w, False, [])"
proof -
  have "cooldown_active w current_time"
    using assms by (simp add: cooldown_active_def)
  then show ?thesis
    by (simp add: set_window_position_def set_lock_position_def set_window_angle_def)
qed

theorem cooldown_rejects_command_witness:
  "set_window_position (WindowController_init\<lparr>last_command_time := Some 0\<rparr>)
       True True 4999999 wire_ok
     = (WindowController_init\<lparr>last_command_time := Some 0\<rparr>, False, [])
   \<and> set_lock_position (WindowController_init\<lparr>last_command_time := Some 0\<rparr>)
       False True 4999999 wire_ok
     = (WindowController_init\<lparr>last_command_time := Some 0\<rparr>, False, [])
   \<and> set_window_angle (WindowController_init\<lparr>last_command_time := Some 0\<rparr>)
       100 True 4999999 4999999 wire_ok
     = (WindowController_init\<lparr>last_command_time := Some 0\<rparr>, False, [])"
proof -
  have a: "last_command_time (WindowController_init\<lparr>last_command_time := Some 0\<rparr>) = Some 0"
    by simp
  have b: "(4999999::int) - 0 < command_cooldown"
    by (simp add: command_cooldown_def seconds_def)
  show ?thesis
    using cooldown_rejects_command [OF a b] by simp
qed

section \<open>Idempotency of automatic commands\<close>

text \<open>
  C2. With no cooldown active, an automatic call (\<open>manual = False\<close>) whose target equals
  the current state returns \<open>False\<close>, runs no wire command and changes nothing, for the
  window and for the lock alike; a manual call with the same target is not suppressed and
  runs exactly the wire command of that target.
\<close>

theorem idempotency_rule:
  assumes "\<not> cooldown_active w current_time"
  shows "set_window_position w (is_window_open w) False current_time wire = (w, False, [])
       \<and> set_lock_position w (is_window_locked w) False current_time wire = (w, False, [])
       \<and> snd (snd (set_window_position w (is_window_open w) True current_time wire))
           = [if is_window_open w then Apri else Chiudi]
       \<and> snd (snd (set_lock_position w (is_window_locked w) True current_time wire))
           = [if is_window_locked w then Blocca else Sblocca]"
  using assms by (simp add: set_window_position_def set_lock_position_def Let_def)

theorem idempotency_rule_witness:
  "\<not> cooldown_active WindowController_init 0
   \<and> set_window_position WindowController_init False False 0 wire_ok
       = (WindowController_init, False, [])
   \<and> set_lock_position WindowController_init True False 0 wire_ok
       = (WindowController_init, False, [])
   \<and> snd (snd (set_window_position WindowController_init False True 0 wire_ok)) = [Chiudi]
   \<and> snd (snd (set_lock_position WindowController_init True True 0 wire_ok)) = [Blocca]"
proof -
  have a: "\<not> cooldown_active WindowController_init 0"
    by (simp add: cooldown_active_def WindowController_init_def)
  have o: "is_window_open WindowController_init = False"
    and l: "is_window_locked WindowController_init = True"
    by (simp_all add: WindowController_init_def)
  show ?thesis
    using a idempotency_rule [OF a, of wire_ok] unfolding o l by simp
qed

section \<open>Entering manual mode\<close>

text \<open>
  C10. A call with \<open>manual = True\<close> to \<open>set_window_position\<close>, \<open>set_lock_position\<close> or
  \<open>set_window_angle\<close> leaves \<open>manual_mode\<close> as it was when the cooldown rejects the call
  and sets it to \<open>True\<close> in every other case, whatever the wire answers and whatever the
  angle is (so also when the wire command fails and when the angle is out of range).
\<close>

theorem manual_command_enters_manual_mode:
  "manual_mode (fst (set_window_position w should_be_open True current_time wire))
     = (if cooldown_active w current_time then manual_mode w else True)
   \<and> manual_mode (fst (set_lock_position w should_be_locked True current_time wire))
     = (if cooldown_active w current_time then manual_mode w else True)
   \<and> manual_mode (fst (set_window_angle w angle True current_time lock_time wire))
     = (if cooldown_active w current_time then manual_mode w else True)"
  by (simp add: set_window_position_def set_lock_position_def set_window_angle_def
        cooldown_active_def Let_def split: option.splits)

theorem manual_command_enters_manual_mode_witness:
  "manual_mode (fst (set_window_position WindowController_init True True 0 wire_fail))
   \<and> manual_mode (fst (set_lock_position WindowController_init False True 0 wire_fail))
   \<and> manual_mode (fst (set_window_angle WindowController_init 200 True 0 0 wire_fail))
   \<and> \<not> manual_mode (fst (set_window_position
         (WindowController_init\<lparr>last_command_time := Some 0\<rparr>) True True 1 wire_ok))"
proof -
  have a: "\<not> cooldown_active WindowController_init 0"
    by (simp add: cooldown_active_def WindowController_init_def)
  have b: "cooldown_active (WindowController_init\<lparr>last_command_time := Some 0\<rparr>) 1"
    by (simp add: cooldown_active_def command_cooldown_def seconds_def)
  have c: "\<not> manual_mode (WindowController_init\<lparr>last_command_time := Some 0\<rparr>)"
    by (simp add: WindowController_init_def)
  show ?thesis
    using a b c
      manual_command_enters_manual_mode
        [of WindowController_init True 0 wire_fail False 200 0]
      manual_command_enters_manual_mode
        [of "WindowController_init\<lparr>last_command_time := Some 0\<rparr>" True 1 wire_ok]
    by simp
qed

section \<open>A failed wire command\<close>

lemma set_window_position_failed:
  assumes "set_window_position w should_be_open manual current_time wire = (w', r, tr)"
    and "tr \<noteq> []" and "\<forall>c \<in> set tr. \<not> wire c"
  shows "r = False \<and> w' = w\<lparr>manual_mode := manual_mode w \<or> manual\<rparr>"
  using assms
  by (cases manual; cases should_be_open)
     (auto simp add: set_window_position_def Let_def split: if_splits)

lemma set_lock_position_failed:
  assumes "set_lock_position w should_be_locked manual current_time wire = (w', r, tr)"
    and "tr \<noteq> []" and "\<forall>c \<in> set tr. \<not> wire c"
  shows "r = False \<and> w' = w\<lparr>manual_mode := manual_mode w \<or> manual\<rparr>"
  using assms
  by (cases manual; cases should_be_locked)
     (auto simp add: set_lock_position_def Let_def split: if_splits)

text \<open>
  C1, as the code has it. When \<open>set_window_position\<close> or \<open>set_lock_position\<close> has run its
  wire command and the command failed, the call returns \<open>False\<close> and every field of the
  controller is as before, except that a manual call has set \<open>manual_mode\<close>; after an
  automatic call the whole state is unchanged.
\<close>

theorem wire_failure_keeps_state:
  assumes "op = set_window_position \<or> op = set_lock_position"
    and "op w target manual current_time wire = (w', r, tr)"
    and "tr \<noteq> []" and "\<forall>c \<in> set tr. \<not> wire c"
  shows "r = False \<and> w' = w\<lparr>manual_mode := manual_mode w \<or> manual\<rparr>
       \<and> (\<not> manual \<longrightarrow> w' = w)"
proof -
  have "r = False \<and> w' = w\<lparr>manual_mode := manual_mode w \<or> manual\<rparr>"
    using assms set_window_position_failed set_lock_position_failed by blast
  then show ?thesis by auto
qed

theorem wire_failure_keeps_state_witness:
  "set_window_position WindowController_init True False 0 wire_fail
     = (WindowController_init, False, [Apri])
   \<and> \<not> wire_fail Apri
   \<and> WindowController_init
     = WindowController_init\<lparr>manual_mode := manual_mode WindowController_init \<or> False\<rparr>"
proof -
  have e: "set_window_position WindowController_init True False 0 wire_fail
     = (WindowController_init, False, [Apri])"
    by (simp add: set_window_position_def cooldown_active_def WindowController_init_def
          wire_fail_def)
  have f: "\<forall>c \<in> set [Apri]. \<not> wire_fail c"
    by (simp add: wire_fail_def)
  show ?thesis
    using e f wire_failure_keeps_state [OF disjI1 [OF refl] e _ f] by simp
qed

text \<open>
  C1 as stated fails for the manual origin: from the initial state, a manual open (or a
  manual unlock) whose wire command fails returns \<open>False\<close> and leaves a state that differs
  from the one before the call, since \<open>manual_mode\<close> has become \<open>True\<close>.
\<close>

theorem wire_failure_sets_manual_mode_counterexample:
  "snd (snd (set_window_position WindowController_init True True 0 wire_fail)) = [Apri]
   \<and> \<not> wire_fail Apri
   \<and> fst (snd (set_window_position WindowController_init True True 0 wire_fail)) = False
   \<and> fst (set_window_position WindowController_init True True 0 wire_fail)
       \<noteq> WindowController_init
   \<and> snd (snd (set_lock_position WindowController_init False True 0 wire_fail)) = [Sblocca]
   \<and> \<not> wire_fail Sblocca
   \<and> fst (set_lock_position WindowController_init False True 0 wire_fail)
       \<noteq> WindowController_init"
  by (simp add: set_window_position_def set_lock_position_def cooldown_active_def
        WindowController_init_def wire_fail_def)

section \<open>The two presence timers\<close>

lemma process_cat_detection_timers:
  assumes "current_detection_time app = None \<or> current_no_detection_time app = None"
  shows "current_detection_time (fst (process_cat_detection app p t ct wire)) = None
       \<or> current_no_detection_time (fst (process_cat_detection app p t ct wire)) = None"
  using assms
  by (auto simp add: process_cat_detection_def Let_def split: prod.splits)

lemma step_app_timers:
  assumes "current_detection_time app = None \<or> current_no_detection_time app = None"
  shows "current_detection_time (fst (step_app app e)) = None
       \<or> current_no_detection_time (fst (step_app app e)) = None"
proof (cases e)
  case (Frame p t ct wire)
  then show ?thesis using process_cat_detection_timers [OF assms] by simp
next
  case EnableAuto
  then show ?thesis using assms by simp
next
  case DisableAuto
  then show ?thesis using assms by simp
next
  case (ManualPosition b ct wire)
  then show ?thesis using assms by (simp add: Let_def split: prod.splits)
qed

lemma run_app_timers:
  assumes "current_detection_time app = None \<or> current_no_detection_time app = None"
  shows "current_detection_time (fst (run_app app es)) = None
       \<or> current_no_detection_time (fst (run_app app es)) = None"
  using assms
proof (induction es arbitrary: app)
  case Nil
  then show ?case by simp
next
  case (Cons e es)
  have "current_detection_time (fst (run_app (fst (step_app app e)) es)) = None
      \<or> current_no_detection_time (fst (run_app (fst (step_app app e)) es)) = None"
    by (rule Cons.IH [OF step_app_timers [OF Cons.prems]])
  then show ?case
    by (simp add: split_beta)
qed

lemma cb_process_cat_detection_timers:
  assumes "last_cat_time cb = None \<or> last_no_cat_time cb = None"
  shows "last_cat_time (fst (cb_process_cat_detection cb p t ct wire)) = None
       \<or> last_no_cat_time (fst (cb_process_cat_detection cb p t ct wire)) = None"
  using assms
  by (auto simp add: cb_process_cat_detection_def Let_def split: prod.splits)

lemma step_cb_timers:
  assumes "last_cat_time cb = None \<or> last_no_cat_time cb = None"
  shows "last_cat_time (fst (step_cb cb e)) = None
       \<or> last_no_cat_time (fst (step_cb cb e)) = None"
proof (cases e)
  case (Frame p t ct wire)
  then show ?thesis using cb_process_cat_detection_timers [OF assms] by simp
next
  case EnableAuto
  then show ?thesis using assms by simp
next
  case DisableAuto
  then show ?thesis using assms by simp
next
  case (ManualPosition b ct wire)
  then show ?thesis using assms by (simp add: Let_def split: prod.splits)
qed

lemma run_cb_timers:
  assumes "last_cat_time cb = None \<or> last_no_cat_time cb = None"
  shows "last_cat_time (fst (run_cb cb es)) = None
       \<or> last_no_cat_time (fst (run_cb cb es)) = None"
  using assms
proof (induction es arbitrary: cb)
  case Nil
  then show ?case by simp
next
  case (Cons e es)
  have "last_cat_time (fst (run_cb (fst (step_cb cb e)) es)) = None
      \<or> last_no_cat_time (fst (run_cb (fst (step_cb cb e)) es)) = None"
    by (rule Cons.IH [OF step_cb_timers [OF Cons.prems]])
  then show ?case
    by (simp add: split_beta)
qed

text \<open>
  C9. Starting from a state in which both timers are null, after any run of calls of
  \<open>process_cat_detection\<close>, with any presence inputs and timestamps and with automatic
  control switched off and on (and manual commands issued) in between, at most one of
  the two timers is set. This holds for \<open>CatDetectorApp\<close> (\<open>current_detection_time\<close>,
  \<open>current_no_detection_time\<close>) and for \<open>HeadlessCatDetectorCallback\<close>
  (\<open>last_cat_time\<close>, \<open>last_no_cat_time\<close>).
\<close>

theorem presence_timers_exclusive:
  assumes "current_detection_time app = None" and "current_no_detection_time app = None"
    and "last_cat_time cb = None" and "last_no_cat_time cb = None"
  shows "(current_detection_time (fst (run_app app es)) = None
          \<or> current_no_detection_time (fst (run_app app es)) = None)
       \<and> (last_cat_time (fst (run_cb cb es)) = None
          \<or> last_no_cat_time (fst (run_cb cb es)) = None)"
  using assms run_app_timers [of app es] run_cb_timers [of cb es] by simp

theorem presence_timers_exclusive_witness:
  "current_detection_time (fst (run_app CatDetectorApp_init sample_events)) = Some (seconds 3)
   \<and> current_no_detection_time (fst (run_app CatDetectorApp_init sample_events)) = None
   \<and> last_cat_time (fst (run_cb HeadlessCatDetectorCallback_init sample_events)) = Some (seconds 3)
   \<and> last_no_cat_time (fst (run_cb HeadlessCatDetectorCallback_init sample_events)) = None"
proof -
  have a: "current_detection_time (fst (run_app CatDetectorApp_init sample_events)) = Some (seconds 3)"
    by (simp add: sample_events_def CatDetectorApp_init_def WindowController_init_def
          process_cat_detection_def auto_control_enabled_def enable_auto_control_def
          disable_auto_control_def seconds_def)
  have b: "last_cat_time (fst (run_cb HeadlessCatDetectorCallback_init sample_events)) = Some (seconds 3)"
    by (simp add: sample_events_def HeadlessCatDetectorCallback_init_def WindowController_init_def
          cb_process_cat_detection_def auto_control_enabled_def enable_auto_control_def
          disable_auto_control_def seconds_def)
  have i: "current_detection_time CatDetectorApp_init = None"
    "current_no_detection_time CatDetectorApp_init = None"
    "last_cat_time HeadlessCatDetectorCallback_init = None"
    "last_no_cat_time HeadlessCatDetectorCallback_init = None"
    by (simp_all add: CatDetectorApp_init_def HeadlessCatDetectorCallback_init_def)
  show ?thesis
    using a b presence_timers_exclusive [OF i, of sample_events] by simp
qed

section \<open>The adaptive confidence threshold\<close>

text \<open>
  C5, as the code has it. In \<open>CatDetectorApp\<close> the threshold used while the window is open
  is the closed-state threshold \<open>min_confidence\<close> times 0.8, which is strictly lower
  whenever \<open>min_confidence\<close> is positive. In \<open>HeadlessCatDetectorCallback\<close> the two
  thresholds are separate fields, \<open>min_confidence_open\<close> and \<open>min_confidence_closed\<close>,
  which the constructor sets to 0.5 and 0.7: lower while open, but not by the factor 0.8.
\<close>

theorem adaptive_threshold:
  "get_current_confidence_threshold
       (app\<lparr>window_controller := w\<lparr>is_window_open := True\<rparr>\<rparr>)
     = get_current_confidence_threshold
         (app\<lparr>window_controller := w\<lparr>is_window_open := False\<rparr>\<rparr>) * 0.8
   \<and> (0 < min_confidence app \<longrightarrow>
        get_current_confidence_threshold
          (app\<lparr>window_controller := w\<lparr>is_window_open := True\<rparr>\<rparr>)
        < get_current_confidence_threshold
            (app\<lparr>window_controller := w\<lparr>is_window_open := False\<rparr>\<rparr>))
   \<and> cb_get_current_confidence_threshold
         (cb\<lparr>cb_window_controller := w\<lparr>is_window_open := True\<rparr>\<rparr>)
       = min_confidence_open cb
   \<and> cb_get_current_confidence_threshold
         (cb\<lparr>cb_window_controller := w\<lparr>is_window_open := False\<rparr>\<rparr>)
       = min_confidence_closed cb
   \<and> min_confidence_open HeadlessCatDetectorCallback_init = 0.5
   \<and> min_confidence_closed HeadlessCatDetectorCallback_init = 0.7"
  by (simp add: get_current_confidence_threshold_def cb_get_current_confidence_threshold_def
        HeadlessCatDetectorCallback_init_def)

theorem adaptive_threshold_witness:
  "get_current_confidence_threshold
       (CatDetectorApp_init\<lparr>window_controller := WindowController_init\<lparr>is_window_open := True\<rparr>\<rparr>)
     = 0.56
   \<and> get_current_confidence_threshold
       (CatDetectorApp_init\<lparr>window_controller := WindowController_init\<lparr>is_window_open := False\<rparr>\<rparr>)
     = 0.7"
proof -
  have m: "min_confidence CatDetectorApp_init = 0.7"
    by (simp add: CatDetectorApp_init_def)
  have c: "get_current_confidence_threshold
       (CatDetectorApp_init\<lparr>window_controller := WindowController_init\<lparr>is_window_open := False\<rparr>\<rparr>)
     = 0.7"
    by (simp add: get_current_confidence_threshold_def CatDetectorApp_init_def)
  show ?thesis
    using adaptive_threshold [where app = CatDetectorApp_init and w = WindowController_init] m c by simp
qed

text \<open>
  C5 as stated fails for the headless detector: in its initial configuration the threshold
  with the window open is 0.5, and 0.8 times the closed-state threshold is 0.56.
\<close>

theorem headless_threshold_counterexample:
  "cb_get_current_confidence_threshold
       (HeadlessCatDetectorCallback_init
          \<lparr>cb_window_controller := WindowController_init\<lparr>is_window_open := True\<rparr>\<rparr>)
     \<noteq> cb_get_current_confidence_threshold
         (HeadlessCatDetectorCallback_init
            \<lparr>cb_window_controller := WindowController_init\<lparr>is_window_open := False\<rparr>\<rparr>) * 0.8"
  by (simp add: cb_get_current_confidence_threshold_def HeadlessCatDetectorCallback_init_def)

section \<open>The presence filter\<close>


















section \<open>Which detections qualify\<close>

lemma fold_max_Max:
  "fold max (map f (filter P ds)) (m::real) = Max (insert m (f ` {d \<in> set ds. P d}))"
proof -
  have "Max (set (m # map f (filter P ds))) = fold max (map f (filter P ds)) m"
    by (rule Max.set_eq_fold)
  moreover have "set (m # map f (filter P ds)) = insert m (f ` {d \<in> set ds. P d})"
    by auto
  ultimately show ?thesis by simp
qed

lemma scan_detections_fold:
  assumes "width \<noteq> 0"
  shows "scan_detections app thr (Some width) ds (r, a, mc, mca)
       = Inr (r \<or> (\<exists>d \<in> set ds.
                      spec_qualifies thr (left_boundary app) (right_boundary app) width d),
              a \<or> (\<exists>d \<in> set ds. cb_qualifies thr d),
              fold max (map get_confidence
                 (filter (spec_qualifies thr (left_boundary app) (right_boundary app) width) ds)) mc,
              fold max (map get_confidence (filter (cb_qualifies thr) ds)) mca)"
  using assms
proof (induction ds arbitrary: r a mc mca)
  case Nil
  then show ?case by simp
next
  case (Cons d ds)
  show ?case
    using Cons.prems
    by (auto simp add: Cons.IH is_within_roi_def spec_qualifies_def cb_qualifies_def Let_def
          max.commute)
qed

lemma cb_scan_detections_fold:
  "cb_scan_detections thr ds (c, mc)
     = (c \<or> (\<exists>d \<in> set ds. cb_qualifies thr d),
        fold max (map get_confidence (filter (cb_qualifies thr) ds)) mc)"
proof (induction ds arbitrary: c mc)
  case Nil
  then show ?case by simp
next
  case (Cons d ds)
  show ?case
    by (simp add: Cons.IH cb_qualifies_def Let_def max.commute)
qed

lemma process_cat_detection_recent:
  "recent_detections (fst (process_cat_detection app p t ct wire)) = recent_detections app"
  by (simp add: process_cat_detection_def Let_def split_beta)

lemma cb_process_cat_detection_recent:
  "cb_recent_detections (fst (cb_process_cat_detection cb p t ct wire)) = cb_recent_detections cb"
  by (simp add: cb_process_cat_detection_def Let_def split_beta)

text \<open>
  C4, as the code has it. In \<open>CatDetectorApp.process_frame\<close>, for a frame whose width is a
  non-zero integer, a detection counts toward the presence window exactly when its label is
  \<open>cat\<close>, its confidence reaches the effective threshold and the centre of its box divided
  by the frame width lies within the two boundaries; \<open>max_confidence\<close> is the maximum of
  0 and the confidences of these detections. In the headless \<open>app_callback\<close> a detection
  counts exactly when its label is \<open>cat\<close> and its confidence reaches the effective
  threshold, wherever its box lies, and \<open>max_confidence\<close> is the maximum of 0 and the
  confidences of those detections.
\<close>

theorem qualifying_detections:
  assumes "width \<noteq> 0"
  shows "scan_detections app thr (Some width) ds (False, False, 0, 0)
       = Inr ((\<exists>d \<in> set ds.
                 spec_qualifies thr (left_boundary app) (right_boundary app) width d),
              (\<exists>d \<in> set ds. cb_qualifies thr d),
              Max (insert 0 (get_confidence `
                 {d \<in> set ds.
                    spec_qualifies thr (left_boundary app) (right_boundary app) width d})),
              Max (insert 0 (get_confidence ` {d \<in> set ds. cb_qualifies thr d})))
     \<and> recent_detections (fst (process_frame app (Some (Some width, ds)) t ct wire))
       = filter (\<lambda>s. t - s < detection_filter_window app) (recent_detections app)
         @ (if \<exists>d \<in> set ds. spec_qualifies (get_current_confidence_threshold app)
                  (left_boundary app) (right_boundary app) width d
            then [t] else [])
     \<and> cb_scan_detections thr ds (False, 0)
       = ((\<exists>d \<in> set ds. cb_qualifies thr d),
          Max (insert 0 (get_confidence ` {d \<in> set ds. cb_qualifies thr d})))
     \<and> cb_recent_detections (fst (app_callback cb (Some ds) t ct wire))
       = filter (\<lambda>s. t - s < cb_detection_filter_window cb) (cb_recent_detections cb)
         @ (if \<exists>d \<in> set ds. cb_qualifies (cb_get_current_confidence_threshold cb) d
            then [t] else [])"
proof (intro conjI)
  show "scan_detections app thr (Some width) ds (False, False, 0, 0)
       = Inr ((\<exists>d \<in> set ds.
                 spec_qualifies thr (left_boundary app) (right_boundary app) width d),
              (\<exists>d \<in> set ds. cb_qualifies thr d),
              Max (insert 0 (get_confidence `
                 {d \<in> set ds.
                    spec_qualifies thr (left_boundary app) (right_boundary app) width d})),
              Max (insert 0 (get_confidence ` {d \<in> set ds. cb_qualifies thr d})))"
    by (simp add: scan_detections_fold [OF assms] fold_max_Max)
  show "recent_detections (fst (process_frame app (Some (Some width, ds)) t ct wire))
       = filter (\<lambda>s. t - s < detection_filter_window app) (recent_detections app)
         @ (if \<exists>d \<in> set ds. spec_qualifies (get_current_confidence_threshold app)
                  (left_boundary app) (right_boundary app) width d
            then [t] else [])"
    by (simp add: process_frame_def scan_detections_fold [OF assms] Let_def split_beta
          process_cat_detection_recent update_detection_filter_def)
  show "cb_scan_detections thr ds (False, 0)
       = ((\<exists>d \<in> set ds. cb_qualifies thr d),
          Max (insert 0 (get_confidence ` {d \<in> set ds. cb_qualifies thr d})))"
    by (simp add: cb_scan_detections_fold fold_max_Max)
  show "cb_recent_detections (fst (app_callback cb (Some ds) t ct wire))
       = filter (\<lambda>s. t - s < cb_detection_filter_window cb) (cb_recent_detections cb)
         @ (if \<exists>d \<in> set ds. cb_qualifies (cb_get_current_confidence_threshold cb) d
            then [t] else [])"
    by (simp add: app_callback_def cb_scan_detections_fold Let_def split_beta
          cb_process_cat_detection_recent cb_update_detection_filter_def)
qed

theorem qualifying_detections_witness:
  "recent_detections
     (fst (process_frame CatDetectorApp_init (Some (Some 1, [sample_detection])) 0 0 wire_ok)) = []
   \<and> recent_detections
     (fst (process_frame (CatDetectorApp_init\<lparr>right_boundary := 1\<rparr>)
        (Some (Some 1, [sample_detection])) 0 0 wire_ok)) = [0]"
proof -
  have w: "(1::int) \<noteq> 0" by simp
  have a: "\<not> spec_qualifies (get_current_confidence_threshold CatDetectorApp_init)
                (left_boundary CatDetectorApp_init) (right_boundary CatDetectorApp_init) 1
                sample_detection"
    by (simp add: spec_qualifies_def sample_detection_def CatDetectorApp_init_def)
  have b: "spec_qualifies
             (get_current_confidence_threshold (CatDetectorApp_init\<lparr>right_boundary := 1\<rparr>))
             (left_boundary (CatDetectorApp_init\<lparr>right_boundary := 1\<rparr>))
             (right_boundary (CatDetectorApp_init\<lparr>right_boundary := 1\<rparr>)) 1
             sample_detection"
    by (simp add: spec_qualifies_def sample_detection_def CatDetectorApp_init_def
          get_current_confidence_threshold_def WindowController_init_def)
  have r: "recent_detections CatDetectorApp_init = []"
    "recent_detections (CatDetectorApp_init\<lparr>right_boundary := 1\<rparr>) = []"
    by (simp_all add: CatDetectorApp_init_def)
  show ?thesis
    using a b r
      qualifying_detections [OF w, where app = CatDetectorApp_init
        and ds = "[sample_detection]" and t = 0 and ct = 0 and wire = wire_ok]
      qualifying_detections [OF w, where app = "CatDetectorApp_init\<lparr>right_boundary := 1\<rparr>"
        and ds = "[sample_detection]" and t = 0 and ct = 0 and wire = wire_ok]
    by simp
qed

text \<open>
  C4 as stated fails for the headless surface, which has no region of interest: a confident
  cat whose box centre is at 0.9 of the width is appended to the presence window, although
  it lies outside the boundaries 0.4 and 0.6.
\<close>

theorem headless_ignores_roi_counterexample:
  "cb_recent_detections
     (fst (app_callback HeadlessCatDetectorCallback_init (Some [sample_detection]) 0 0 wire_ok))
     = [0]
   \<and> \<not> spec_qualifies (cb_get_current_confidence_threshold HeadlessCatDetectorCallback_init)
         0.4 0.6 1 sample_detection"
  by (simp add: app_callback_def cb_get_current_confidence_threshold_def
        HeadlessCatDetectorCallback_init_def WindowController_init_def sample_detection_def
        cb_update_detection_filter_def cb_process_cat_detection_def auto_control_enabled_def
        spec_qualifies_def seconds_def)

section \<open>One opening per dwell\<close>

lemma present_frame_open:
  assumes "\<not> manual_mode (window_controller app)" and "is_window_open (window_controller app)"
  shows "fst (snd (process_cat_detection app True t ct wire)) = []
       \<and> snd (snd (process_cat_detection app True t ct wire)) \<noteq> Some (True, True)
       \<and> window_controller (fst (process_cat_detection app True t ct wire))
           = window_controller app
       \<and> current_detection_time (fst (process_cat_detection app True t ct wire))
           = Some (dwell_since app t)
       \<and> required_detection_time (fst (process_cat_detection app True t ct wire))
           = required_detection_time app"
  using assms
  by (simp add: process_cat_detection_def set_window_position_def auto_control_enabled_def
        dwell_since_def Let_def)

lemma present_frame_closed:
  assumes "\<not> manual_mode (window_controller app)"
    and "\<not> is_window_open (window_controller app)"
  shows "current_detection_time (fst (process_cat_detection app True t ct wire))
           = Some (dwell_since app t)
       \<and> required_detection_time (fst (process_cat_detection app True t ct wire))
           = required_detection_time app
       \<and> \<not> manual_mode (window_controller (fst (process_cat_detection app True t ct wire)))
       \<and> (if open_due app (dwell_since app t) (Frame True t ct wire)
           then fst (snd (process_cat_detection app True t ct wire)) = [Apri]
             \<and> (if wire Apri
                 then snd (snd (process_cat_detection app True t ct wire)) = Some (True, True)
                   \<and> is_window_open
                        (window_controller (fst (process_cat_detection app True t ct wire)))
                 else snd (snd (process_cat_detection app True t ct wire)) \<noteq> Some (True, True)
                   \<and> window_controller (fst (process_cat_detection app True t ct wire))
                       = window_controller app)
           else fst (snd (process_cat_detection app True t ct wire)) = []
             \<and> snd (snd (process_cat_detection app True t ct wire)) \<noteq> Some (True, True)
             \<and> window_controller (fst (process_cat_detection app True t ct wire))
                 = window_controller app)"
  using assms
  by (simp add: process_cat_detection_def set_window_position_def auto_control_enabled_def
        dwell_since_def Let_def)

lemma run_app_Cons:
  "fst (run_app app (e # es)) = fst (run_app (fst (step_app app e)) es)
   \<and> snd (run_app app (e # es)) = snd (step_app app e) # snd (run_app (fst (step_app app e)) es)"
  by (simp add: split_beta)

lemma run_app_length: "length (snd (run_app app es)) = length es"
  by (induction es arbitrary: app) (simp_all add: split_beta)

lemma is_present_frameE:
  assumes "is_present_frame e"
  obtains t ct wire where "e = Frame True t ct wire"
  using assms by (cases e) auto

lemma open_run:
  assumes "list_all is_present_frame es"
    and "\<not> manual_mode (window_controller app)" and "is_window_open (window_controller app)"
  shows "\<forall>entry \<in> set (snd (run_app app es)). fst entry = [] \<and> \<not> opened entry"
  using assms
proof (induction es arbitrary: app)
  case Nil
  then show ?case by simp
next
  case (Cons e es)
  from Cons.prems(1) have "is_present_frame e" and rest: "list_all is_present_frame es"
    by simp_all
  then obtain t ct wire where e: "e = Frame True t ct wire"
    by (auto elim: is_present_frameE)
  note st = present_frame_open [OF Cons.prems(2,3), of t ct wire]
  have "\<forall>entry \<in> set (snd (run_app (fst (step_app app e)) es)). fst entry = [] \<and> \<not> opened entry"
    by (rule Cons.IH [OF rest]) (simp_all add: e st Cons.prems)
  then show ?case
    using st by (simp add: run_app_Cons e opened_def del: run_app.simps)
qed

lemma closed_run_count:
  assumes "list_all is_present_frame es"
    and "\<not> manual_mode (window_controller app)"
    and "\<not> is_window_open (window_controller app)"
  shows "length (filter opened (snd (run_app app es))) \<le> 1"
  using assms
proof (induction es arbitrary: app)
  case Nil
  then show ?case by simp
next
  case (Cons e es)
  from Cons.prems(1) have "is_present_frame e" and rest: "list_all is_present_frame es"
    by simp_all
  then obtain t ct wire where e: "e = Frame True t ct wire"
    by (auto elim: is_present_frameE)
  let ?a = "fst (step_app app e)"
  note st = present_frame_closed [OF Cons.prems(2,3), of t ct wire]
  have nm: "\<not> manual_mode (window_controller ?a)" using st by (simp add: e)
  show ?case
  proof (cases "opened (snd (step_app app e))")
    case True
    then have "is_window_open (window_controller ?a)"
      using st by (auto simp add: e opened_def split: if_splits)
    then have "\<forall>entry \<in> set (snd (run_app ?a es)). fst entry = [] \<and> \<not> opened entry"
      using open_run [OF rest nm] by simp
    then have "filter opened (snd (run_app ?a es)) = []"
      by (simp add: filter_empty_conv)
    then show ?thesis
      using True by (simp add: run_app_Cons del: run_app.simps)
  next
    case False
    then have "window_controller ?a = window_controller app"
      using st by (auto simp add: e opened_def split: if_splits)
    then have "length (filter opened (snd (run_app ?a es))) \<le> 1"
      using Cons.IH [OF rest, of ?a] Cons.prems(2,3) by simp
    then show ?thesis
      using False by (simp add: run_app_Cons del: run_app.simps)
  qed
qed

lemma closed_run_after_open:
  assumes "list_all is_present_frame es"
    and "\<not> manual_mode (window_controller app)"
    and "\<not> is_window_open (window_controller app)"
    and "i < j" and "j < length es" and "opened (snd (run_app app es) ! i)"
  shows "fst (snd (run_app app es) ! j) = []"
  using assms
proof (induction es arbitrary: app i j)
  case Nil
  then show ?case by simp
next
  case (Cons e es)
  from Cons.prems(1) have "is_present_frame e" and rest: "list_all is_present_frame es"
    by simp_all
  then obtain t ct wire where e: "e = Frame True t ct wire"
    by (auto elim: is_present_frameE)
  let ?a = "fst (step_app app e)"
  note st = present_frame_closed [OF Cons.prems(2,3), of t ct wire]
  have nm: "\<not> manual_mode (window_controller ?a)" using st by (simp add: e)
  obtain j' where j: "j = Suc j'" and j': "j' < length es"
    using Cons.prems(4,5) by (cases j) auto
  have len: "length (snd (run_app ?a es)) = length es" by (rule run_app_length)
  show ?case
  proof (cases "opened (snd (step_app app e))")
    case True
    then have "is_window_open (window_controller ?a)"
      using st by (auto simp add: e opened_def split: if_splits)
    then have "\<forall>entry \<in> set (snd (run_app ?a es)). fst entry = [] \<and> \<not> opened entry"
      using open_run [OF rest nm] by simp
    then have "fst (snd (run_app ?a es) ! j') = []"
      using j' len by simp
    then show ?thesis
      by (simp add: run_app_Cons j del: run_app.simps)
  next
    case False
    then have wc: "window_controller ?a = window_controller app"
      using st by (auto simp add: e opened_def split: if_splits)
    obtain i' where i: "i = Suc i'"
      using False Cons.prems(6) by (cases i) (auto simp add: run_app_Cons simp del: run_app.simps)
    have "fst (snd (run_app ?a es) ! j') = []"
    proof (rule Cons.IH [OF rest, of ?a i' j'])
      show "\<not> manual_mode (window_controller ?a)" by (rule nm)
      show "\<not> is_window_open (window_controller ?a)" using wc Cons.prems(3) by simp
      show "i' < j'" using Cons.prems(4) i j by simp
      show "j' < length es" by (rule j')
      show "opened (snd (run_app ?a es) ! i')"
        using Cons.prems(6) by (simp add: run_app_Cons i del: run_app.simps)
    qed
    then show ?thesis
      by (simp add: run_app_Cons j del: run_app.simps)
  qed
qed

lemma present_frame_any:
  assumes "\<not> manual_mode (window_controller app)"
  shows "current_detection_time (fst (process_cat_detection app True t ct wire))
           = Some (dwell_since app t)
       \<and> \<not> manual_mode (window_controller (fst (process_cat_detection app True t ct wire)))"
proof (cases "is_window_open (window_controller app)")
  case True
  then show ?thesis using present_frame_open [OF assms True, of t ct wire] assms by simp
next
  case False
  then show ?thesis using present_frame_closed [OF assms False, of t ct wire] by simp
qed

lemma present_run_timer:
  assumes "list_all is_present_frame es"
    and "\<not> manual_mode (window_controller app)"
    and "current_detection_time app = Some s"
  shows "current_detection_time (fst (run_app app es)) = Some s"
  using assms
proof (induction es arbitrary: app)
  case Nil
  then show ?case by simp
next
  case (Cons e es)
  from Cons.prems(1) have "is_present_frame e" and rest: "list_all is_present_frame es"
    by simp_all
  then obtain t ct wire where e: "e = Frame True t ct wire"
    by (auto elim: is_present_frameE)
  note st = present_frame_any [OF Cons.prems(2), of t ct wire]
  have "dwell_since app t = s" using Cons.prems(3) by (simp add: dwell_since_def)
  then have "current_detection_time (fst (run_app (fst (step_app app e)) es)) = Some s"
    using Cons.IH [OF rest, of "fst (step_app app e)"] st by (simp add: e)
  then show ?case by (simp add: run_app_Cons del: run_app.simps)
qed

lemma present_run_timer_start:
  assumes "list_all is_present_frame rest"
    and "\<not> manual_mode (window_controller app)"
  shows "current_detection_time (fst (run_app app (Frame True t ct wire # rest)))
       = Some (dwell_since app t)"
proof -
  note st = present_frame_any [OF assms(2), of t ct wire]
  have "current_detection_time
          (fst (run_app (fst (process_cat_detection app True t ct wire)) rest))
        = Some (dwell_since app t)"
    by (rule present_run_timer [OF assms(1)]) (simp_all add: st)
  then show ?thesis by (simp add: run_app_Cons del: run_app.simps)
qed

lemma open_due_cong:
  assumes "required_detection_time a = required_detection_time b"
    and "window_controller a = window_controller b"
  shows "open_due a s e = open_due b s e"
  using assms by (cases e) simp_all

lemma closed_run_exact:
  assumes "list_all is_present_frame es"
    and "\<not> manual_mode (window_controller app)"
    and "\<not> is_window_open (window_controller app)"
    and "\<forall>t ct wire rest. es = Frame True t ct wire # rest \<longrightarrow> dwell_since app t = s"
    and "list_all apri_succeeds es"
    and "\<exists>e \<in> set es. open_due app s e"
  shows "concat (map fst (snd (run_app app es))) = [Apri]
       \<and> length (filter opened (snd (run_app app es))) = 1"
  using assms
proof (induction es arbitrary: app)
  case Nil
  then show ?case by simp
next
  case (Cons e es)
  from Cons.prems(1) have "is_present_frame e" and rest: "list_all is_present_frame es"
    by simp_all
  then obtain t ct wire where e: "e = Frame True t ct wire"
    by (auto elim: is_present_frameE)
  let ?a = "fst (step_app app e)"
  have s: "dwell_since app t = s" using Cons.prems(4) e by simp
  note st = present_frame_closed [OF Cons.prems(2,3), of t ct wire, unfolded s]
  have nm: "\<not> manual_mode (window_controller ?a)" using st by (simp add: e)
  have ok: "wire Apri" using Cons.prems(5) by (simp add: e)
  have ok_rest: "list_all apri_succeeds es" using Cons.prems(5) by simp
  show ?case
  proof (cases "open_due app s e")
    case True
    then have o: "opened (snd (step_app app e))" and tr: "fst (snd (step_app app e)) = [Apri]"
      and "is_window_open (window_controller ?a)"
      using st ok by (simp_all add: e opened_def)
    then have "\<forall>entry \<in> set (snd (run_app ?a es)). fst entry = [] \<and> \<not> opened entry"
      using open_run [OF rest nm] by simp
    then have "filter opened (snd (run_app ?a es)) = []"
      and "concat (map fst (snd (run_app ?a es))) = []"
      by (simp_all add: filter_empty_conv)
    then show ?thesis
      using o tr by (simp add: run_app_Cons del: run_app.simps)
  next
    case False
    then have o: "\<not> opened (snd (step_app app e))" and tr: "fst (snd (step_app app e)) = []"
      and wc: "window_controller ?a = window_controller app"
      using st by (simp_all add: e opened_def)
    have rq: "required_detection_time ?a = required_detection_time app"
      and cdt: "current_detection_time ?a = Some s"
      using st by (simp_all add: e)
    have due: "\<exists>e' \<in> set es. open_due ?a s e'"
      using Cons.prems(6) False open_due_cong [OF rq wc] by auto
    have "concat (map fst (snd (run_app ?a es))) = [Apri]
       \<and> length (filter opened (snd (run_app ?a es))) = 1"
    proof (rule Cons.IH [OF rest nm _ _ ok_rest due])
      show "\<not> is_window_open (window_controller ?a)" using wc Cons.prems(3) by simp
      show "\<forall>t ct wire rest. es = Frame True t ct wire # rest \<longrightarrow> dwell_since ?a t = s"
        using cdt by (simp add: dwell_since_def)
    qed
    then show ?thesis
      using o tr by (simp add: run_app_Cons del: run_app.simps)
  qed
qed

lemma list_all_take: "list_all P xs \<Longrightarrow> list_all P (take n xs)"
  by (auto simp add: list_all_iff dest: in_set_takeD)

text \<open>
  C3, as the code has it. Take a run of frames of \<open>CatDetectorApp\<close> in which debounced
  presence is true throughout, automatic control is enabled and the window starts closed.
  Then \<open>set_window_position(True, manual=False)\<close> returns true at most once; after it has
  returned true no further wire command runs in that dwell; and from the first frame on the
  dwell timer \<open>current_detection_time\<close> keeps the value it took there. If moreover every
  open command succeeds on the wire and the run contains a frame at which the dwell has
  lasted \<open>required_detection_time\<close> with the controller out of its cooldown, then exactly
  one wire command runs, an open command, and the call returns true exactly once.
\<close>

theorem open_once_per_dwell:
  assumes "es = Frame True t0 ct0 wire0 # rest"
    and "list_all is_present_frame rest"
    and "\<not> manual_mode (window_controller app)"
    and "\<not> is_window_open (window_controller app)"
  shows "length (filter opened (snd (run_app app es))) \<le> 1
       \<and> (\<forall>i j. i < j \<and> j < length es \<and> opened (snd (run_app app es) ! i)
              \<longrightarrow> fst (snd (run_app app es) ! j) = [])
       \<and> (\<forall>n. 0 < n \<and> n \<le> length es
              \<longrightarrow> current_detection_time (fst (run_app app (take n es)))
                    = Some (dwell_since app t0))
       \<and> (list_all apri_succeeds es \<and> (\<exists>e \<in> set es. open_due app (dwell_since app t0) e)
              \<longrightarrow> concat (map fst (snd (run_app app es))) = [Apri]
                \<and> length (filter opened (snd (run_app app es))) = 1)"
proof (intro conjI allI impI)
  have all: "list_all is_present_frame es"
    using assms(1,2) by simp
  show "length (filter opened (snd (run_app app es))) \<le> 1"
    by (rule closed_run_count [OF all assms(3,4)])
  show "fst (snd (run_app app es) ! j) = []"
    if "i < j \<and> j < length es \<and> opened (snd (run_app app es) ! i)" for i j
    using closed_run_after_open [OF all assms(3,4), of i j] that by simp
  show "current_detection_time (fst (run_app app (take n es))) = Some (dwell_since app t0)"
    if nn: "0 < n \<and> n \<le> length es" for n
  proof -
    obtain m where n: "n = Suc m" using nn by (cases n) auto
    have "list_all is_present_frame (take m rest)"
      by (rule list_all_take [OF assms(2)])
    then show ?thesis
      using present_run_timer_start [OF _ assms(3), of "take m rest" t0 ct0 wire0]
      by (simp add: assms(1) n del: run_app.simps)
  qed
  show "concat (map fst (snd (run_app app es))) = [Apri]"
    if "list_all apri_succeeds es \<and> (\<exists>e \<in> set es. open_due app (dwell_since app t0) e)"
    using closed_run_exact [OF all assms(3,4), of "dwell_since app t0"] that assms(1) by simp
  show "length (filter opened (snd (run_app app es))) = 1"
    if "list_all apri_succeeds es \<and> (\<exists>e \<in> set es. open_due app (dwell_since app t0) e)"
    using closed_run_exact [OF all assms(3,4), of "dwell_since app t0"] that assms(1) by simp
qed

theorem open_once_per_dwell_witness:
  "concat (map fst (snd (run_app CatDetectorApp_init dwell_run))) = [Apri]
   \<and> length (filter opened (snd (run_app CatDetectorApp_init dwell_run))) = 1
   \<and> current_detection_time (fst (run_app CatDetectorApp_init (take 4 dwell_run))) = Some 0"
proof -
  have e: "dwell_run = Frame True 0 0 wire_ok #
             [Frame True (seconds 5) (seconds 5) wire_ok,
              Frame True (seconds 10) (seconds 10) wire_ok,
              Frame True (seconds 11) (seconds 11) wire_ok]"
    by (simp add: dwell_run_def)
  have p: "list_all is_present_frame
             [Frame True (seconds 5) (seconds 5) wire_ok,
              Frame True (seconds 10) (seconds 10) wire_ok,
              Frame True (seconds 11) (seconds 11) wire_ok]"
    by simp
  have m: "\<not> manual_mode (window_controller CatDetectorApp_init)"
    and c: "\<not> is_window_open (window_controller CatDetectorApp_init)"
    by (simp_all add: CatDetectorApp_init_def WindowController_init_def)
  have d: "dwell_since CatDetectorApp_init 0 = 0"
    by (simp add: dwell_since_def CatDetectorApp_init_def)
  have ok: "list_all apri_succeeds dwell_run"
    by (simp add: dwell_run_def wire_ok_def)
  have "open_due CatDetectorApp_init 0 (Frame True (seconds 10) (seconds 10) wire_ok)"
    by (simp add: CatDetectorApp_init_def WindowController_init_def cooldown_active_def)
  then have due: "\<exists>e \<in> set dwell_run. open_due CatDetectorApp_init 0 e"
    by (simp add: dwell_run_def)
  have len: "length dwell_run = 4" by (simp add: dwell_run_def)
  note th = open_once_per_dwell [OF e p m c, unfolded d]
  have r1: "concat (map fst (snd (run_app CatDetectorApp_init dwell_run))) = [Apri]
       \<and> length (filter opened (snd (run_app CatDetectorApp_init dwell_run))) = 1"
    using th ok due by blast
  have "0 < (4::nat) \<and> 4 \<le> length dwell_run" using len by simp
  then have r2: "current_detection_time (fst (run_app CatDetectorApp_init (take 4 dwell_run)))
       = Some 0"
    using th by blast
  show ?thesis using r1 r2 by simp
qed

text \<open>
  C3 as stated fails when an open command fails on the wire: the failure stamps no command
  time and changes no state, so the next frame issues the command again. In a dwell of
  eleven seconds whose first open command fails, two open commands run on the wire.
\<close>

theorem failed_open_is_retried_counterexample:
  "list_all is_present_frame retry_run
   \<and> \<not> manual_mode (window_controller CatDetectorApp_init)
   \<and> \<not> is_window_open (window_controller CatDetectorApp_init)
   \<and> seconds 11 - 0 \<ge> required_detection_time CatDetectorApp_init
   \<and> concat (map fst (snd (run_app CatDetectorApp_init retry_run))) = [Apri, Apri]"
  by (simp add: retry_run_def CatDetectorApp_init_def WindowController_init_def
        process_cat_detection_def set_window_position_def auto_control_enabled_def
        cooldown_active_def wire_ok_def wire_fail_def seconds_def)

section \<open>Safe sequencing of lock and leaf\<close>

lemma new_events_append:
  assumes "trace c1 = trace c @ xs" and "trace c2 = trace c1 @ ys"
  shows "trace c2 = trace c @ xs @ ys" and "new_events c c2 = xs @ ys"
    and "new_events c c1 = xs" and "new_events c1 c2 = ys"
  using assms by (simp_all add: new_events_def)

lemma new_events_self: "new_events c c = []"
  by (simp add: new_events_def)

lemma read_holding_registers_trace:
  assumes "read_holding_registers c a = (ro, c1)"
  shows "\<exists>e. trace c1 = trace c @ [e] \<and> \<not> is_window_write e \<and> \<not> is_lock_write e
           \<and> (\<forall>r. ro = Some r \<longrightarrow> e = ReadRegisters a r)"
  using assms by (auto simp add: read_holding_registers_def split: list.splits)

lemma poll_window_trace:
  "trace (snd (poll_window angle st c)) = trace c @ new_events c (snd (poll_window angle st c))
   \<and> (\<forall>e \<in> set (new_events c (snd (poll_window angle st c))).
         \<not> is_window_write e \<and> \<not> is_lock_write e)
   \<and> (fst (poll_window angle st c) = Some True \<longrightarrow>
         (\<exists>r. new_events c (snd (poll_window angle st c)) \<noteq> []
            \<and> last (new_events c (snd (poll_window angle st c))) = ReadRegisters 1 (ReadOk r)
            \<and> \<bar>real_of_int r / 10 - angle\<bar> \<le> 0.1))"
proof (induction angle st c rule: poll_window.induct)
  case (1 angle st c)
  show ?case
  proof (cases "clock c")
    case Nil
    then show ?thesis by (subst (1 2 3 4 5 6) poll_window.simps) (simp add: new_events_self)
  next
    case (Cons now later)
    show ?thesis
    proof (cases "now - st > 30")
      case True
      then show ?thesis
        using Cons by (subst (1 2 3 4 5 6) poll_window.simps) (simp add: new_events_def)
    next
      case False
      obtain ro c1 where rd: "read_holding_registers (c\<lparr>clock := later\<rparr>) 1 = (ro, c1)"
        by force
      from read_holding_registers_trace [OF rd]
      obtain e where e: "trace c1 = trace c @ [e]" "\<not> is_window_write e" "\<not> is_lock_write e"
        "\<forall>r. ro = Some r \<longrightarrow> e = ReadRegisters 1 r"
        by auto
      have again: ?thesis
        if p: "poll_window angle st c = poll_window angle st (sleep c1 d)"
          and ih: "trace (snd (poll_window angle st (sleep c1 d)))
                 = trace (sleep c1 d) @ new_events (sleep c1 d) (snd (poll_window angle st (sleep c1 d)))
             \<and> (\<forall>e \<in> set (new_events (sleep c1 d) (snd (poll_window angle st (sleep c1 d)))).
                   \<not> is_window_write e \<and> \<not> is_lock_write e)
             \<and> (fst (poll_window angle st (sleep c1 d)) = Some True \<longrightarrow>
                   (\<exists>r. new_events (sleep c1 d) (snd (poll_window angle st (sleep c1 d))) \<noteq> []
                      \<and> last (new_events (sleep c1 d) (snd (poll_window angle st (sleep c1 d))))
                          = ReadRegisters 1 (ReadOk r)
                      \<and> \<bar>real_of_int r / 10 - angle\<bar> \<le> 0.1))"
        for d
      proof -
        let ?c2 = "sleep c1 d"
        let ?c' = "snd (poll_window angle st ?c2)"
        let ?ys = "new_events ?c2 ?c'"
        have t2: "trace ?c2 = trace c @ [e, Sleep d]"
          using e(1) by (simp add: sleep_def)
        have t': "trace ?c' = trace ?c2 @ ?ys" using ih by simp
        have ne: "new_events c ?c' = [e, Sleep d] @ ?ys"
          by (rule new_events_append(2) [OF t2 t'])
        have tr: "trace ?c' = trace c @ [e, Sleep d] @ ?ys"
          by (rule new_events_append(1) [OF t2 t'])
        show ?thesis
          unfolding p using ih e(2,3) ne tr by auto
      qed
      show ?thesis
      proof (cases ro)
        case None
        then have "poll_window angle st c = (None, c1)"
          using Cons False rd by (subst poll_window.simps) simp
        then show ?thesis using e by (simp add: new_events_def)
      next
        case (Some resp)
        show ?thesis
        proof (cases resp)
          case (ReadOk r)
          show ?thesis
          proof (cases "\<bar>real_of_int r / 10 - angle\<bar> \<le> 0.1")
            case True
            then have "poll_window angle st c = (Some True, c1)"
              using Cons False rd Some ReadOk by (subst poll_window.simps) simp
            then show ?thesis using e True Some ReadOk by (auto simp add: new_events_def)
          next
            case nf: False
            have p: "poll_window angle st c = poll_window angle st (sleep c1 0.1)"
              using Cons False rd Some ReadOk nf by (subst poll_window.simps) simp
            show ?thesis
              by (rule again [OF p])
                 (rule "1.IH"(1) [OF Cons False rd [symmetric] _ _ nf]; simp add: Some ReadOk)
          qed
        next
          case ReadNone
          have p: "poll_window angle st c = poll_window angle st (sleep c1 0.5)"
            using Cons False rd Some ReadNone by (subst poll_window.simps) simp
          show ?thesis
            by (rule again [OF p])
               (rule "1.IH"(2) [OF Cons False rd [symmetric]]; simp add: Some ReadNone)
        next
          case ReadExc
          have p: "poll_window angle st c = poll_window angle st (sleep c1 0.5)"
            using Cons False rd Some ReadExc by (subst poll_window.simps) simp
          show ?thesis
            by (rule again [OF p])
               (rule "1.IH"(3) [OF Cons False rd [symmetric]]; simp add: Some ReadExc)
        qed
      qed
    qed
  qed
qed

lemma py_round_of_int: "py_round (of_int n) = n"
  by (simp add: py_round_def)

lemma py_round_setpoints:
  "py_round 900 = 900" "py_round 0 = 0" "py_round 1200 = 1200" "py_round 770 = 770"
  using py_round_of_int [of 900] py_round_of_int [of 0]
    py_round_of_int [of 1200] py_round_of_int [of 770]
  by simp_all

lemma cw_set_lock_angle_trace:
  "\<exists>rest. trace (snd (cw_set_lock_angle c angle))
            = trace c @ WriteRegister 2 (py_round (angle * 10)) # rest
     \<and> (\<forall>e \<in> set rest. \<not> is_window_write e \<and> \<not> is_lock_write e)
     \<and> (fst (cw_set_lock_angle c angle) = Some True \<longrightarrow>
           (\<exists>r. rest = [Sleep 1, ReadRegisters 3 (ReadOk r)]
              \<and> \<bar>real_of_int r / 10 - angle\<bar> \<le> 5))"
  by (auto simp add: cw_set_lock_angle_def write_register_def read_holding_registers_def
        sleep_def Let_def split: list.splits write_resp.splits read_resp.splits)

lemma cw_set_window_angle_trace:
  "\<exists>rest. trace (snd (cw_set_window_angle c angle))
            = trace c @ WriteRegister 0 (py_round (angle * 10)) # rest
     \<and> (\<forall>e \<in> set rest. \<not> is_window_write e \<and> \<not> is_lock_write e)
     \<and> (fst (cw_set_window_angle c angle) = Some True \<longrightarrow>
           (\<exists>r. rest \<noteq> [] \<and> last rest = ReadRegisters 1 (ReadOk r)
              \<and> \<bar>real_of_int r / 10 - angle\<bar> \<le> 0.1))"
proof -
  obtain wo c1 where w: "write_register c 0 (py_round (angle * 10)) = (wo, c1)"
    by force
  then have t1: "trace c1 = trace c @ [WriteRegister 0 (py_round (angle * 10))]"
    by (auto simp add: write_register_def split: list.splits)
  show ?thesis
  proof (cases "wo = Some WriteOk \<and> clock c1 \<noteq> []")
    case False
    then have "snd (cw_set_window_angle c angle) = c1
        \<and> fst (cw_set_window_angle c angle) \<noteq> Some True"
      using w by (auto simp add: cw_set_window_angle_def Let_def
            split: option.splits write_resp.splits list.splits)
    then show ?thesis using t1 by simp
  next
    case True
    then obtain st later where cl: "clock c1 = st # later" by (cases "clock c1") auto
    let ?c2 = "c1\<lparr>clock := later\<rparr>"
    have eq: "cw_set_window_angle c angle = poll_window angle st ?c2"
      using w True cl by (simp add: cw_set_window_angle_def Let_def)
    let ?rest = "new_events ?c2 (snd (poll_window angle st ?c2))"
    note pw = poll_window_trace [of angle st ?c2]
    have "trace (snd (poll_window angle st ?c2))
        = trace c @ WriteRegister 0 (py_round (angle * 10)) # ?rest"
      using pw t1 by simp
    then show ?thesis
      unfolding eq using pw by blast
  qed
qed

lemma split_at_unique:
  assumes "xs @ y # ys = pre @ e # post"
    and "\<forall>x \<in> set xs. \<not> P x" and "\<forall>x \<in> set ys. \<not> P x" and "P e"
  shows "pre = xs \<and> e = y \<and> post = ys"
  using assms
proof (induction xs arbitrary: pre)
  case Nil
  then show ?case by (cases pre) auto
next
  case (Cons x xs)
  then show ?case by (cases pre) auto
qed

lemma open_window_events:
  "(\<exists>rest. new_events c (snd (open_window c)) = WriteRegister 2 900 # rest
       \<and> fst (unlock_window c) \<noteq> Some True
       \<and> (\<forall>e \<in> set rest. \<not> is_window_write e))
   \<or> (\<exists>r rest. new_events c (snd (open_window c))
          = [WriteRegister 2 900, Sleep 1, ReadRegisters 3 (ReadOk r)]
            @ WriteRegister 0 1200 # rest
       \<and> fst (unlock_window c) = Some True
       \<and> \<bar>real_of_int r / 10 - 90\<bar> \<le> 5
       \<and> (\<forall>e \<in> set rest. \<not> is_window_write e))"
proof -
  obtain uo c1 where u: "unlock_window c = (uo, c1)" by force
  from cw_set_lock_angle_trace [of c 90]
  obtain rest where r: "trace c1 = trace c @ WriteRegister 2 900 # rest"
    "\<forall>e \<in> set rest. \<not> is_window_write e \<and> \<not> is_lock_write e"
    "uo = Some True \<longrightarrow> (\<exists>r. rest = [Sleep 1, ReadRegisters 3 (ReadOk r)]
              \<and> \<bar>real_of_int r / 10 - 90\<bar> \<le> 5)"
    using u by (auto simp add: unlock_window_def py_round_setpoints)
  show ?thesis
  proof (cases "uo = Some True")
    case False
    then have "snd (open_window c) = c1"
      using u by (auto simp add: open_window_def split: option.splits bool.splits)
    then show ?thesis
      using r False u by (auto simp add: new_events_def)
  next
    case True
    then obtain rd where rd: "rest = [Sleep 1, ReadRegisters 3 (ReadOk rd)]"
      "\<bar>real_of_int rd / 10 - 90\<bar> \<le> 5"
      using r(3) by auto
    from cw_set_window_angle_trace [of c1 120]
    obtain rest2 where r2: "trace (snd (cw_set_window_angle c1 120))
            = trace c1 @ WriteRegister 0 1200 # rest2"
      "\<forall>e \<in> set rest2. \<not> is_window_write e \<and> \<not> is_lock_write e"
      by (auto simp add: py_round_setpoints)
    have "snd (open_window c) = snd (cw_set_window_angle c1 120)"
      using u True by (auto simp add: open_window_def split: option.splits bool.splits prod.splits)
    then have "new_events c (snd (open_window c))
          = [WriteRegister 2 900, Sleep 1, ReadRegisters 3 (ReadOk rd)]
            @ WriteRegister 0 1200 # rest2"
      using r(1) r2(1) rd(1) by (simp add: new_events_def)
    then show ?thesis
      using True u rd(2) r2(2) by auto
  qed
qed

lemma close_window_events:
  "(\<exists>rest. new_events c (snd (close_window c)) = WriteRegister 0 770 # rest
       \<and> fst (cw_set_window_angle c 77) \<noteq> Some True
       \<and> (\<forall>e \<in> set rest. \<not> is_lock_write e))
   \<or> (\<exists>r mid rest. new_events c (snd (close_window c))
          = (WriteRegister 0 770 # mid @ [ReadRegisters 1 (ReadOk r), Sleep 1])
            @ WriteRegister 2 0 # rest
       \<and> fst (cw_set_window_angle c 77) = Some True
       \<and> \<bar>real_of_int r / 10 - 77\<bar> \<le> 0.1
       \<and> (\<forall>e \<in> set mid. \<not> is_lock_write e)
       \<and> (\<forall>e \<in> set rest. \<not> is_lock_write e))"
proof -
  obtain mo c1 where m: "cw_set_window_angle c 77 = (mo, c1)" by force
  from cw_set_window_angle_trace [of c 77]
  obtain rest where r: "trace c1 = trace c @ WriteRegister 0 770 # rest"
    "\<forall>e \<in> set rest. \<not> is_window_write e \<and> \<not> is_lock_write e"
    "mo = Some True \<longrightarrow> (\<exists>r. rest \<noteq> [] \<and> last rest = ReadRegisters 1 (ReadOk r)
              \<and> \<bar>real_of_int r / 10 - 77\<bar> \<le> 0.1)"
    using m by (auto simp add: py_round_setpoints)
  show ?thesis
  proof (cases "mo = Some True")
    case False
    then have "snd (close_window c) = c1"
      using m by (auto simp add: close_window_def split: option.splits bool.splits)
    then show ?thesis
      using r False m by (auto simp add: new_events_def)
  next
    case True
    then obtain rd where rd: "rest \<noteq> []" "last rest = ReadRegisters 1 (ReadOk rd)"
      "\<bar>real_of_int rd / 10 - 77\<bar> \<le> 0.1"
      using r(3) by auto
    then have rest: "rest = butlast rest @ [ReadRegisters 1 (ReadOk rd)]"
      by (metis append_butlast_last_id)
    have mid: "\<forall>e \<in> set (butlast rest). \<not> is_lock_write e"
      using r(2) by (auto dest: in_set_butlastD)
    from cw_set_lock_angle_trace [of "sleep c1 1" 0]
    obtain rest2 where r2: "trace (snd (lock_window (sleep c1 1)))
            = trace (sleep c1 1) @ WriteRegister 2 0 # rest2"
      "\<forall>e \<in> set rest2. \<not> is_window_write e \<and> \<not> is_lock_write e"
      by (auto simp add: lock_window_def py_round_setpoints)
    have "snd (close_window c) = snd (lock_window (sleep c1 1))"
      using m True by (auto simp add: close_window_def split: option.splits bool.splits prod.splits)
    then have "trace (snd (close_window c))
          = trace c @ WriteRegister 0 770 # rest @ Sleep 1 # WriteRegister 2 0 # rest2"
      using r(1) r2(1) by (simp add: sleep_def)
    then have "new_events c (snd (close_window c))
          = (WriteRegister 0 770 # butlast rest @ [ReadRegisters 1 (ReadOk rd), Sleep 1])
            @ WriteRegister 2 0 # rest2"
      using rest by (simp add: new_events_def)
    moreover have "\<forall>e \<in> set rest2. \<not> is_lock_write e" using r2(2) by simp
    moreover have "fst (cw_set_window_angle c 77) = Some True" using True m by simp
    ultimately show ?thesis
      using rd(3) mid
      by (intro disjI2 exI [of _ rd] exI [of _ "butlast rest"] exI [of _ rest2]) simp
  qed
qed

text \<open>
  C7. In every execution of \<open>open_window\<close>, whatever the device answers, a write to the
  window register comes only after the unlock has been confirmed: what precedes it in the
  trace is exactly the write of the unlock setpoint, the pause, and a readback of the lock
  within 5 degrees of 90; and when \<open>unlock_window\<close> does not return true, \<open>open_window\<close>
  does nothing more and no write to the window register is attempted. In every execution
  of \<open>close_window\<close>, a write to the lock register comes only after the leaf has been
  confirmed closed: what precedes it starts with the write of the closed setpoint and ends
  with a readback of the leaf within 0.1 degrees of 77 followed by the pause; and when the
  move does not return true, \<open>close_window\<close> does nothing more and no write to the lock
  register is attempted.
\<close>

theorem safety_sequencing:
  "(\<forall>pre e post. new_events c (snd (open_window c)) = pre @ e # post \<and> is_window_write e
       \<longrightarrow> fst (unlock_window c) = Some True
         \<and> (\<exists>r. pre = [WriteRegister 2 900, Sleep 1, ReadRegisters 3 (ReadOk r)]
                \<and> \<bar>real_of_int r / 10 - 90\<bar> \<le> 5))
   \<and> (fst (unlock_window c) \<noteq> Some True
       \<longrightarrow> open_window c = unlock_window c
         \<and> (\<forall>e \<in> set (new_events c (snd (open_window c))). \<not> is_window_write e))
   \<and> (\<forall>pre e post. new_events c (snd (close_window c)) = pre @ e # post \<and> is_lock_write e
       \<longrightarrow> fst (cw_set_window_angle c 77) = Some True
         \<and> (\<exists>r mid. pre = WriteRegister 0 770 # mid @ [ReadRegisters 1 (ReadOk r), Sleep 1]
                \<and> \<bar>real_of_int r / 10 - 77\<bar> \<le> 0.1))
   \<and> (fst (cw_set_window_angle c 77) \<noteq> Some True
       \<longrightarrow> close_window c = cw_set_window_angle c 77
         \<and> (\<forall>e \<in> set (new_events c (snd (close_window c))). \<not> is_lock_write e))"
proof (intro conjI allI impI)
  fix pre e post
  assume a: "new_events c (snd (open_window c)) = pre @ e # post \<and> is_window_write e"
  from open_window_events [of c]
  consider (failed) rest where
      "new_events c (snd (open_window c)) = WriteRegister 2 900 # rest"
      "\<forall>e \<in> set rest. \<not> is_window_write e"
    | (unlocked) r rest where
      "new_events c (snd (open_window c))
          = [WriteRegister 2 900, Sleep 1, ReadRegisters 3 (ReadOk r)]
            @ WriteRegister 0 1200 # rest"
      "fst (unlock_window c) = Some True"
      "\<bar>real_of_int r / 10 - 90\<bar> \<le> 5"
      "\<forall>e \<in> set rest. \<not> is_window_write e"
    by blast
  then have "fst (unlock_window c) = Some True
         \<and> (\<exists>r. pre = [WriteRegister 2 900, Sleep 1, ReadRegisters 3 (ReadOk r)]
                \<and> \<bar>real_of_int r / 10 - 90\<bar> \<le> 5)"
  proof cases
    case failed
    have "[] @ WriteRegister 2 900 # rest = pre @ e # post" using failed(1) a by simp
    from split_at_unique [OF this _ failed(2)] a
    show ?thesis by simp
  next
    case unlocked
    have "[WriteRegister 2 900, Sleep 1, ReadRegisters 3 (ReadOk r)]
            @ WriteRegister 0 1200 # rest = pre @ e # post"
      using unlocked(1) a by simp
    from split_at_unique [OF this _ unlocked(4)] a
    have "pre = [WriteRegister 2 900, Sleep 1, ReadRegisters 3 (ReadOk r)]" by simp
    then show ?thesis using unlocked(2,3) by simp
  qed
  then show "fst (unlock_window c) = Some True"
    and "\<exists>r. pre = [WriteRegister 2 900, Sleep 1, ReadRegisters 3 (ReadOk r)]
                \<and> \<bar>real_of_int r / 10 - 90\<bar> \<le> 5"
    by simp_all
next
  assume f: "fst (unlock_window c) \<noteq> Some True"
  show "open_window c = unlock_window c"
    using f by (cases "unlock_window c")
      (auto simp add: open_window_def split: option.splits bool.splits)
  show "\<forall>e \<in> set (new_events c (snd (open_window c))). \<not> is_window_write e"
    using open_window_events [of c] f by auto
next
  fix pre e post
  assume a: "new_events c (snd (close_window c)) = pre @ e # post \<and> is_lock_write e"
  from close_window_events [of c]
  consider (failed) rest where
      "new_events c (snd (close_window c)) = WriteRegister 0 770 # rest"
      "\<forall>e \<in> set rest. \<not> is_lock_write e"
    | (moved) r mid rest where
      "new_events c (snd (close_window c))
          = (WriteRegister 0 770 # mid @ [ReadRegisters 1 (ReadOk r), Sleep 1])
            @ WriteRegister 2 0 # rest"
      "fst (cw_set_window_angle c 77) = Some True"
      "\<bar>real_of_int r / 10 - 77\<bar> \<le> 0.1"
      "\<forall>e \<in> set mid. \<not> is_lock_write e"
      "\<forall>e \<in> set rest. \<not> is_lock_write e"
    by blast
  then have "fst (cw_set_window_angle c 77) = Some True
         \<and> (\<exists>r mid. pre = WriteRegister 0 770 # mid @ [ReadRegisters 1 (ReadOk r), Sleep 1]
                \<and> \<bar>real_of_int r / 10 - 77\<bar> \<le> 0.1)"
  proof cases
    case failed
    have "[] @ WriteRegister 0 770 # rest = pre @ e # post" using failed(1) a by simp
    from split_at_unique [OF this _ failed(2)] a
    show ?thesis by simp
  next
    case moved
    have eq: "(WriteRegister 0 770 # mid @ [ReadRegisters 1 (ReadOk r), Sleep 1])
            @ WriteRegister 2 0 # rest = pre @ e # post"
      using moved(1) a by simp
    have pre_ok: "\<forall>x \<in> set (WriteRegister 0 770 # mid @ [ReadRegisters 1 (ReadOk r), Sleep 1]).
            \<not> is_lock_write x"
      using moved(4) by simp
    from split_at_unique [OF eq pre_ok moved(5)] a
    have "pre = WriteRegister 0 770 # mid @ [ReadRegisters 1 (ReadOk r), Sleep 1]" by simp
    then show ?thesis using moved(2,3) by blast
  qed
  then show "fst (cw_set_window_angle c 77) = Some True"
    and "\<exists>r mid. pre = WriteRegister 0 770 # mid @ [ReadRegisters 1 (ReadOk r), Sleep 1]
                \<and> \<bar>real_of_int r / 10 - 77\<bar> \<le> 0.1"
    by simp_all
next
  assume f: "fst (cw_set_window_angle c 77) \<noteq> Some True"
  show "close_window c = cw_set_window_angle c 77"
    using f by (cases "cw_set_window_angle c 77")
      (auto simp add: close_window_def split: option.splits bool.splits)
  show "\<forall>e \<in> set (new_events c (snd (close_window c))). \<not> is_lock_write e"
    using close_window_events [of c] f by auto
qed

theorem safety_sequencing_witness:
  "new_events obedient_open_client (snd (open_window obedient_open_client))
     = [WriteRegister 2 900, Sleep 1, ReadRegisters 3 (ReadOk 900)]
       @ WriteRegister 0 1200 # [ReadRegisters 1 (ReadOk 1200)]
   \<and> fst (unlock_window obedient_open_client) = Some True
   \<and> open_window stuck_lock_client = unlock_window stuck_lock_client
   \<and> new_events stuck_lock_client (snd (open_window stuck_lock_client))
     = [WriteRegister 2 900, Sleep 1, ReadRegisters 3 (ReadOk 0)]
   \<and> new_events obedient_close_client (snd (close_window obedient_close_client))
     = [WriteRegister 0 770, ReadRegisters 1 (ReadOk 770), Sleep 1]
       @ WriteRegister 2 0 # [Sleep 1, ReadRegisters 3 (ReadOk 0)]
   \<and> fst (cw_set_window_angle obedient_close_client 77) = Some True
   \<and> close_window stuck_leaf_client = cw_set_window_angle stuck_leaf_client 77
   \<and> new_events stuck_leaf_client (snd (close_window stuck_leaf_client))
     = [WriteRegister 0 770]"
proof -
  have o: "new_events obedient_open_client (snd (open_window obedient_open_client))
     = [WriteRegister 2 900, Sleep 1, ReadRegisters 3 (ReadOk 900)]
       @ WriteRegister 0 1200 # [ReadRegisters 1 (ReadOk 1200)]"
    by (simp add: obedient_open_client_def open_window_def unlock_window_def
          cw_set_lock_angle_def cw_set_window_angle_def write_register_def
          read_holding_registers_def sleep_def new_events_def py_round_setpoints)
  have sl: "fst (unlock_window stuck_lock_client) \<noteq> Some True"
    by (simp add: stuck_lock_client_def unlock_window_def
          cw_set_lock_angle_def write_register_def
          read_holding_registers_def sleep_def py_round_setpoints)
  have sle: "new_events stuck_lock_client (snd (unlock_window stuck_lock_client))
     = [WriteRegister 2 900, Sleep 1, ReadRegisters 3 (ReadOk 0)]"
    by (simp add: stuck_lock_client_def unlock_window_def
          cw_set_lock_angle_def write_register_def
          read_holding_registers_def sleep_def new_events_def py_round_setpoints)
  have cl: "new_events obedient_close_client (snd (close_window obedient_close_client))
     = [WriteRegister 0 770, ReadRegisters 1 (ReadOk 770), Sleep 1]
       @ WriteRegister 2 0 # [Sleep 1, ReadRegisters 3 (ReadOk 0)]"
    by (simp add: obedient_close_client_def close_window_def lock_window_def
          cw_set_lock_angle_def cw_set_window_angle_def write_register_def
          read_holding_registers_def sleep_def new_events_def py_round_setpoints)
  have st: "fst (cw_set_window_angle stuck_leaf_client 77) \<noteq> Some True"
    by (simp add: stuck_leaf_client_def cw_set_window_angle_def write_register_def
          read_holding_registers_def sleep_def py_round_setpoints)
  have ste: "new_events stuck_leaf_client (snd (cw_set_window_angle stuck_leaf_client 77))
     = [WriteRegister 0 770]"
    by (simp add: stuck_leaf_client_def cw_set_window_angle_def write_register_def
          read_holding_registers_def sleep_def new_events_def py_round_setpoints)
  have w1: "is_window_write (WriteRegister 0 1200)" and w2: "is_lock_write (WriteRegister 2 0)"
    by simp_all
  note t1 = safety_sequencing [of obedient_open_client]
  note t2 = safety_sequencing [of stuck_lock_client]
  note t3 = safety_sequencing [of obedient_close_client]
  note t4 = safety_sequencing [of stuck_leaf_client]
  have a: "fst (unlock_window obedient_open_client) = Some True"
    using t1 o w1 by blast
  have b: "open_window stuck_lock_client = unlock_window stuck_lock_client"
    using t2 sl by blast
  have c: "fst (cw_set_window_angle obedient_close_client 77) = Some True"
    using t3 cl w2 by blast
  have d: "close_window stuck_leaf_client = cw_set_window_angle stuck_leaf_client 77"
    using t4 st by blast
  show ?thesis
    using o a b sle cl c d ste by simp
qed

end
